theory Spec2Isabelle
  imports Main "HOL-Library.Sublist"
begin

section \<open>Exceptions\<close>

text \<open>
  The Python exceptions that the modelled code can raise. A function of the source that
  may raise returns, next to its state, an \<open>exn option\<close>: \<open>None\<close> is a normal return,
  \<open>Some e\<close> is the exception that leaves the function.
\<close>

datatype exn =
    AttributeError
  | IndexError
  | KeyError
  | TypeError
  | ValueError
  | RecursionError
  | OSError string
  | SystemExit int

section \<open>Event (src/IrcBot.py, lines 87-137)\<close>

text \<open>
  \<^verbatim>\<open>Event.__handlers\<close> is a Python list of callables. Handlers are compared with
  \<open>==\<close> by \<^verbatim>\<open>in\<close> and \<^verbatim>\<open>list.remove\<close>; the model uses HOL equality on an arbitrary
  type \<open>'h\<close> of handlers.
\<close>

record 'h Event =
  handlers :: "'h list"

definition Event_init :: "'h Event" where
  "Event_init = \<lparr>handlers = []\<rparr>"

text \<open>\<^verbatim>\<open>list.remove(x)\<close> deletes the first occurrence and raises ValueError when there is none.\<close>

definition list_remove :: "'a list \<Rightarrow> 'a \<Rightarrow> exn + 'a list" where
  "list_remove xs x = (if x \<in> set xs then Inr (remove1 x xs) else Inl ValueError)"

text \<open>\<^verbatim>\<open>__iadd__\<close>: append the handler unless it is in the list already.\<close>

definition Event_iadd :: "'h Event \<Rightarrow> 'h \<Rightarrow> 'h Event" where
  "Event_iadd e h =
     (if h \<notin> set (handlers e) then e\<lparr>handlers := handlers e @ [h]\<rparr> else e)"

text \<open>\<^verbatim>\<open>__isub__\<close>: remove the handler when it is in the list.\<close>

definition Event_isub :: "'h Event \<Rightarrow> 'h \<Rightarrow> exn + 'h Event" where
  "Event_isub e h =
     (if h \<in> set (handlers e)
      then (case list_remove (handlers e) h of
              Inl x \<Rightarrow> Inl x
            | Inr hs \<Rightarrow> Inr (e\<lparr>handlers := hs\<rparr>))
      else Inr e)"

text \<open>
  \<^verbatim>\<open>__call__\<close>: \<^verbatim>\<open>for handler in self.__handlers: handler(*args)\<close>. The arguments are the
  same for every handler of one call, so the meaning of a handler is a function
  \<open>run h\<close> on the world \<open>'w\<close> that the handlers act on; it returns the new world and the
  exception the handler raised, if any. There is no \<^verbatim>\<open>try\<close> in the loop: the first
  exception leaves the loop and the call. Beside the world and the exception the
  model returns the handlers that were invoked, in order. The world does not hold the
  list that is being walked: a handler of the model does not subscribe to or
  unsubscribe from the event that is calling it (no handler of the bot does).
\<close>

fun call_all :: "('h \<Rightarrow> 'w \<Rightarrow> 'w \<times> exn option) \<Rightarrow> 'h list \<Rightarrow> 'w \<Rightarrow> 'h list \<times> 'w \<times> exn option" where
  "call_all run [] w = ([], w, None)"
| "call_all run (h # hs) w =
     (case run h w of
        (w', Some x) \<Rightarrow> ([h], w', Some x)
      | (w', None) \<Rightarrow> (case call_all run hs w' of (tr, w'', r) \<Rightarrow> (h # tr, w'', r)))"

definition Event_call :: "('h \<Rightarrow> 'w \<Rightarrow> 'w \<times> exn option) \<Rightarrow> 'h Event \<Rightarrow> 'w \<Rightarrow> 'h list \<times> 'w \<times> exn option" where
  "Event_call run e w = call_all run (handlers e) w"

text \<open>The handlers that stand before \<open>h\<close> in a list: those subscribed earlier than \<open>h\<close>.\<close>

definition before :: "'h \<Rightarrow> 'h list \<Rightarrow> 'h list" where
  "before h hs = takeWhile (\<lambda>g. g \<noteq> h) hs"

text \<open>
  The three operations of an Event as commands, and a run of commands from a state.
  \<^verbatim>\<open>__call__\<close> assigns nothing to \<^verbatim>\<open>__handlers\<close> and returns \<^verbatim>\<open>self\<close>: the event after a
  publish is the event before it, whether or not a handler raised.
\<close>

datatype 'h ev_op = Subscribe 'h | Unsubscribe 'h | Publish

fun apply_op :: "('h \<Rightarrow> 'w \<Rightarrow> 'w \<times> exn option) \<Rightarrow> 'h Event \<times> 'w \<Rightarrow> 'h ev_op \<Rightarrow> 'h Event \<times> 'w" where
  "apply_op run (e, w) (Subscribe h) = (Event_iadd e h, w)"
| "apply_op run (e, w) (Unsubscribe h) =
     (case Event_isub e h of Inr e' \<Rightarrow> (e', w) | Inl x \<Rightarrow> (e, w))"
| "apply_op run (e, w) Publish = (e, fst (snd (Event_call run e w)))"

definition run_ops :: "('h \<Rightarrow> 'w \<Rightarrow> 'w \<times> exn option) \<Rightarrow> 'w \<Rightarrow> 'h ev_op list \<Rightarrow> 'h Event \<times> 'w" where
  "run_ops run w ops = foldl (apply_op run) (Event_init, w) ops"

section \<open>Strings\<close>

text \<open>
  A Python \<^verbatim>\<open>str\<close> is modelled as a \<open>string\<close>: a list of characters with code points
  0 to 255. \<^verbatim>\<open>str.isspace\<close>, and with it \<^verbatim>\<open>\s\<close> of the \<^verbatim>\<open>re\<close> module on a \<^verbatim>\<open>str\<close>
  pattern, \<^verbatim>\<open>str.rstrip()\<close> and \<^verbatim>\<open>str.split()\<close>, hold in that range for tab, line
  feed, vertical tab, form feed, carriage return, the separators 0x1C to 0x1F, the
  space, 0x85 and 0xA0.
\<close>

definition isspace :: "char \<Rightarrow> bool" where
  "isspace c = (c \<in> set [CHR 0x09, CHR 0x0A, CHR 0x0B, CHR 0x0C, CHR 0x0D,
                          CHR 0x1C, CHR 0x1D, CHR 0x1E, CHR 0x1F, CHR 0x20,
                          CHR 0x85, CHR 0xA0])"

definition rstrip :: "string \<Rightarrow> string" where
  "rstrip s = rev (dropWhile isspace (rev s))"

text \<open>\<^verbatim>\<open>str.split()\<close> with no argument: the maximal runs of characters that are not whitespace.\<close>

fun split_acc :: "string \<Rightarrow> string \<Rightarrow> string list" where
  "split_acc w [] = (if w = [] then [] else [w])"
| "split_acc w (c # cs) =
     (if isspace c then (if w = [] then split_acc [] cs else w # split_acc [] cs)
      else split_acc (w @ [c]) cs)"

definition split_ws :: "string \<Rightarrow> string list" where
  "split_ws s = split_acc [] s"

definition startswith :: "string \<Rightarrow> string \<Rightarrow> bool" where
  "startswith s p = (take (length p) s = p)"

definition endswith :: "string \<Rightarrow> string \<Rightarrow> bool" where
  "endswith s p = startswith (rev s) (rev p)"

text \<open>\<^verbatim>\<open>p in s\<close> on strings: \<open>p\<close> occurs in \<open>s\<close> as a contiguous piece.\<close>

fun contains :: "string \<Rightarrow> string \<Rightarrow> bool" where
  "contains [] p = (p = [])"
| "contains (c # cs) p = (startswith (c # cs) p \<or> contains cs p)"

definition CRLF :: string where
  "CRLF = [CHR 0x0D, CHR 0x0A]"

section \<open>Regular expressions (the \<^verbatim>\<open>re\<close> module, as far as \<^verbatim>\<open>Bot.__pat\<close> needs it)\<close>

text \<open>
  The pattern of the bot uses literal characters, character sets, greedy \<^verbatim>\<open>+\<close>, \<^verbatim>\<open>*\<close>
  and \<^verbatim>\<open>?\<close> on a single character or set, capturing groups, and an optional
  non-capturing group \<^verbatim>\<open>(?:...)?\<close>. An \<open>atom\<close> matches one character:
  \<^verbatim>\<open>\s\<close> is whitespace, \<^verbatim>\<open>\S\<close> its complement, \<^verbatim>\<open>.\<close> anything but a line feed.
\<close>

datatype atom = Chr char | NotChr char | WSpace | NonWSpace | Dot | AnyOf "char list"

fun atom_ok :: "atom \<Rightarrow> char \<Rightarrow> bool" where
  "atom_ok (Chr a) c = (c = a)"
| "atom_ok (NotChr a) c = (c \<noteq> a)"
| "atom_ok WSpace c = isspace c"
| "atom_ok NonWSpace c = (\<not> isspace c)"
| "atom_ok Dot c = (c \<noteq> CHR 0x0A)"
| "atom_ok (AnyOf cs) c = (c \<in> set cs)"

text \<open>
  A pattern is a list of nodes, matched from left to right. \<open>Group i\<close> is the capturing
  group number \<open>i\<close>; \<open>EndGroup i st\<close> is not written in a pattern: the matcher puts it
  behind the body of group \<open>i\<close> to record, when it is reached, the text consumed since
  the group was entered at the input \<open>st\<close>.
\<close>

datatype node =
    One atom
  | Plus atom
  | Star atom
  | Opt atom
  | Group nat "node list"
  | OptNC "node list"
  | EndGroup nat string

fun first_some :: "('a \<Rightarrow> 'b option) \<Rightarrow> 'a list \<Rightarrow> 'b option" where
  "first_some f [] = None"
| "first_some f (x # xs) = (case f x of Some r \<Rightarrow> Some r | None \<Rightarrow> first_some f xs)"

lemma first_some_cong [fundef_cong]:
  "xs = ys \<Longrightarrow> (\<And>x. x \<in> set ys \<Longrightarrow> f x = g x) \<Longrightarrow> first_some f xs = first_some g ys"
  by (induction ys arbitrary: xs) (auto split: option.splits)

definition run_len :: "atom \<Rightarrow> string \<Rightarrow> nat" where
  "run_len a s = length (takeWhile (atom_ok a) s)"

text \<open>
  The backtracking matcher. \<open>rmatch k s caps\<close> matches the nodes \<open>k\<close> at the front of
  the input \<open>s\<close> (as \<^verbatim>\<open>match\<close> does: the pattern need not reach the end of the input)
  and returns the captures of the first successful way to match, in the order the
  \<^verbatim>\<open>re\<close> module tries them: a greedy quantifier takes the longest run first and gives
  characters back one at a time; an optional group is tried before it is skipped. The
  captures made on a way that fails are dropped with it.
\<close>

fun rmatch :: "node list \<Rightarrow> string \<Rightarrow> (nat \<rightharpoonup> string) \<Rightarrow> (nat \<rightharpoonup> string) option" where
  "rmatch [] s caps = Some caps"
| "rmatch (One a # k) s caps =
     (case s of [] \<Rightarrow> None | c # cs \<Rightarrow> if atom_ok a c then rmatch k cs caps else None)"
| "rmatch (Plus a # k) s caps =
     first_some (\<lambda>n. rmatch k (drop n s) caps) (rev [1 ..< Suc (run_len a s)])"
| "rmatch (Star a # k) s caps =
     first_some (\<lambda>n. rmatch k (drop n s) caps) (rev [0 ..< Suc (run_len a s)])"
| "rmatch (Opt a # k) s caps =
     first_some (\<lambda>n. rmatch k (drop n s) caps) (rev [0 ..< Suc (min 1 (run_len a s))])"
| "rmatch (Group i body # k) s caps = rmatch (body @ EndGroup i s # k) s caps"
| "rmatch (EndGroup i st # k) s caps =
     rmatch k s (caps(i \<mapsto> take (length st - length s) st))"
| "rmatch (OptNC body # k) s caps =
     (case rmatch (body @ k) s caps of Some r \<Rightarrow> Some r | None \<Rightarrow> rmatch k s caps)"

text \<open>
  \<^verbatim>\<open>pattern.match(s)\<close> followed by \<^verbatim>\<open>.groups()\<close>, for a pattern with \<open>n\<close> groups: \<open>None\<close>
  when there is no match, else the text of each group, \<open>None\<close> for a group that took no
  part in the match.
\<close>

definition re_match :: "node list \<Rightarrow> nat \<Rightarrow> string \<Rightarrow> string option list option" where
  "re_match p n s = map_option (\<lambda>caps. map caps [1 ..< Suc n]) (rmatch p s Map.empty)"

section \<open>Values, name mangling\<close>

text \<open>
  \<open>pyval\<close>: what an attribute of a Config or of the bot holds: \<^verbatim>\<open>None\<close>, a string, or
  a bound method (by its name). \<open>py_str\<close> is the text \<^verbatim>\<open>'{0}'.format(v)\<close> puts for \<open>v\<close>;
  for a bound method Python's text also carries the address of the object, which the
  model leaves out (no modelled call formats a method).
\<close>

datatype pyval = PyNone | PyStr string | PyMethod string

fun py_str :: "pyval \<Rightarrow> string" where
  "py_str PyNone = ''None''"
| "py_str (PyStr s) = s"
| "py_str (PyMethod n) = ''<bound method '' @ n @ ''>''"

text \<open>
  \<open>mval\<close>: a value of the dictionary that the handlers receive. \<^verbatim>\<open>handle_msg\<close> stores
  strings; \<^verbatim>\<open>on_privmsg\<close> replaces the entry \<^verbatim>\<open>'message'\<close> by a list of strings.
\<close>

datatype mval = MStr string | MList "string list"

type_synonym com = "string \<rightharpoonup> mval"

text \<open>\<^verbatim>\<open>v[0]\<close>: the first character of a string (a string of length one), the first element of a list; IndexError when \<open>v\<close> is empty.\<close>

definition subscript0 :: "mval \<Rightarrow> exn + string" where
  "subscript0 v =
     (case v of
        MStr s \<Rightarrow> (case s of [] \<Rightarrow> Inl IndexError | c # _ \<Rightarrow> Inr [c])
      | MList xs \<Rightarrow> (case xs of [] \<Rightarrow> Inl IndexError | x # _ \<Rightarrow> Inr x))"

text \<open>\<^verbatim>\<open>v[1:]\<close>: all but the first; empty when \<open>v\<close> is empty.\<close>

definition slice1 :: "mval \<Rightarrow> mval" where
  "slice1 v = (case v of MStr s \<Rightarrow> MStr (tl s) | MList xs \<Rightarrow> MList (tl xs))"

text \<open>
  Inside a class body Python rewrites an identifier that starts with two underscores and
  does not end with two (also when it stands as a string in \<^verbatim>\<open>__slots__\<close>) to
  \<^verbatim>\<open>_Class__name\<close>. The attribute lives under the rewritten name.
\<close>

definition mangle :: "string \<Rightarrow> string \<Rightarrow> string" where
  "mangle cls name =
     (if startswith name ''__'' \<and> \<not> endswith name ''__'' then ''_'' @ cls @ name else name)"

section \<open>Config (src/IrcBot.py, lines 206-267)\<close>

text \<open>
  The slots of a Config, as \<^verbatim>\<open>__get_config\<close> has left them: each holds \<^verbatim>\<open>None\<close> or the
  string read from the file (\<open>filename\<close> is the slot \<^verbatim>\<open>__file\<close>). Reading the file is
  outside the model.
\<close>

record Config =
  command_char :: pyval
  channel :: pyval
  filename :: pyval
  nick :: pyval
  password :: pyval
  server :: pyval

text \<open>
  The attributes of a Config object whose names start with \<^verbatim>\<open>_Config__\<close>: the six slots
  and the private method \<^verbatim>\<open>__get_config\<close>. Every other attribute (\<^verbatim>\<open>get\<close>,
  \<^verbatim>\<open>write_basic_config\<close>, and what \<^verbatim>\<open>object\<close> gives: \<^verbatim>\<open>__class__\<close>, \<^verbatim>\<open>__init__\<close>, ...) has a
  name that does not start so, and \<^verbatim>\<open>get\<close> asks for such names only.
\<close>

definition Config_private :: "Config \<Rightarrow> (string \<times> pyval) list" where
  "Config_private c =
     [(mangle ''Config'' ''__command_char'', command_char c),
      (mangle ''Config'' ''__channel'', channel c),
      (mangle ''Config'' ''__file'', filename c),
      (mangle ''Config'' ''__nick'', nick c),
      (mangle ''Config'' ''__password'', password c),
      (mangle ''Config'' ''__server'', server c),
      (mangle ''Config'' ''__get_config'', PyMethod ''Config.__get_config'')]"

text \<open>
  \<^verbatim>\<open>Config.get\<close>: \<^verbatim>\<open>setting = '_Config__{0}'.format(setting)\<close>, then the attribute of that
  name when the object has it; a function that ends without \<^verbatim>\<open>return\<close> gives \<^verbatim>\<open>None\<close>.
\<close>

definition Config_get :: "Config \<Rightarrow> string \<Rightarrow> pyval" where
  "Config_get c setting =
     (case map_of (Config_private c) (''_Config__'' @ setting) of
        Some v \<Rightarrow> v
      | None \<Rightarrow> PyNone)"

section \<open>The socket\<close>

text \<open>
  The socket of the bot, seen from the program: whether a write goes through
  (\<open>writable\<close>: connected, and the peer has not gone), whether \<^verbatim>\<open>close\<close> was called, and the
  texts written so far. \<^verbatim>\<open>send\<close> raises OSError when the write fails. The source sends
  \<^verbatim>\<open>text.encode()\<close>; the model keeps the text.
\<close>

record sock =
  writable :: bool
  closed :: bool
  sent :: "string list"

definition sock_send :: "sock \<Rightarrow> string \<Rightarrow> exn + sock" where
  "sock_send s d =
     (if closed s then Inl (OSError ''[Errno 9] Bad file descriptor'')
      else if \<not> writable s then Inl (OSError ''[Errno 32] Broken pipe'')
      else Inr (s\<lparr>sent := sent s @ [d]\<rparr>))"

definition sock_close :: "sock \<Rightarrow> sock" where
  "sock_close s = s\<lparr>closed := True\<rparr>"

section \<open>Bot (src/IrcBot.py, lines 270-504)\<close>

text \<open>The bound methods that \<^verbatim>\<open>init_events\<close> subscribes.\<close>

datatype handler = On_command | On_privmsg | On_kick | On_mode

text \<open>
  A call of \<^verbatim>\<open>debug_out\<close>: the format string with the arguments of \<^verbatim>\<open>.format\<close>, or the
  exception whose text is printed. How the console layer (\<^verbatim>\<open>_ConsoleColourer\<close>, the time
  stamp) draws the line is outside the model.
\<close>

datatype dbg = Dbg string "mval list" | DbgExn exn

text \<open>
  The state of the bot. \<open>bot_config\<close>, \<open>bot_connected\<close>, \<open>bot_debug\<close>, \<open>bot_nick\<close>,
  \<open>bot_owners\<close> and \<open>bot_soc\<close> are the slots \<^verbatim>\<open>__config\<close>, \<^verbatim>\<open>__connected\<close>, \<^verbatim>\<open>__debug\<close>,
  \<^verbatim>\<open>__nick\<close>, \<^verbatim>\<open>__owners\<close> and \<^verbatim>\<open>__soc\<close>; \<open>irc_COMMAND\<close> to \<open>irc_PRIVMSG\<close> are the
  slots \<^verbatim>\<open>__irc_COMMAND\<close> to \<^verbatim>\<open>__irc_PRIVMSG\<close>. \<^verbatim>\<open>__pat\<close> is the constant \<open>Bot_pat\<close>;
  \<^verbatim>\<open>__plugins\<close> and \<^verbatim>\<open>__server\<close> are not read by the modelled methods. \<open>stdout\<close> holds
  the calls of \<^verbatim>\<open>debug_out\<close> made while debugging was on.
\<close>

record Bot =
  bot_config :: Config
  bot_connected :: bool
  bot_debug :: bool
  bot_nick :: pyval
  bot_owners :: "string list"
  bot_soc :: sock
  irc_COMMAND :: "handler Event"
  irc_JOIN :: "handler Event"
  irc_KICK :: "handler Event"
  irc_MODE :: "handler Event"
  irc_NOTICE :: "handler Event"
  irc_PRIVMSG :: "handler Event"
  stdout :: "dbg list"

text \<open>
  \<^verbatim>\<open>':([^!]+)!(\S+)\s+(\S+)\s+:?(\S+)\s*(?:[:+-]+(.*))?(?:[:+-]+(.*))?'\<close>
\<close>

definition Bot_pat :: "node list" where
  "Bot_pat =
     [One (Chr CHR '':''), Group 1 [Plus (NotChr CHR ''!'')], One (Chr CHR ''!''),
      Group 2 [Plus NonWSpace], Plus WSpace, Group 3 [Plus NonWSpace], Plus WSpace,
      Opt (Chr CHR '':''), Group 4 [Plus NonWSpace], Star WSpace,
      OptNC [Plus (AnyOf '':+-''), Group 5 [Star Dot]],
      OptNC [Plus (AnyOf '':+-''), Group 6 [Star Dot]]]"

text \<open>\<^verbatim>\<open>__init__\<close>, for a Config that is loaded. The socket is new: not connected.\<close>

definition Bot_init :: "Config \<Rightarrow> bool \<Rightarrow> Bot" where
  "Bot_init cfg dbg =
     \<lparr>bot_config = cfg, bot_connected = False, bot_debug = dbg,
      bot_nick = Config_get cfg ''nick'', bot_owners = [''JaINTP''],
      bot_soc = \<lparr>writable = False, closed = False, sent = []\<rparr>,
      irc_COMMAND = Event_init, irc_JOIN = Event_init, irc_KICK = Event_init,
      irc_MODE = Event_init, irc_NOTICE = Event_init, irc_PRIVMSG = Event_init,
      stdout = []\<rparr>"

definition init_events :: "Bot \<Rightarrow> Bot" where
  "init_events b =
     (let b1 = b\<lparr>irc_COMMAND := Event_iadd (irc_COMMAND b) On_command\<rparr>;
          b2 = b1\<lparr>irc_KICK := Event_iadd (irc_KICK b1) On_kick\<rparr>;
          b3 = b2\<lparr>irc_MODE := Event_iadd (irc_MODE b2) On_mode\<rparr>
      in b3\<lparr>irc_COMMAND := Event_iadd (irc_COMMAND b3) On_privmsg\<rparr>)"

text \<open>
  The names under which \<^verbatim>\<open>getattr\<close> finds an attribute of a Bot object: the slots and
  the methods of the class, each under its mangled name, the class attributes
  \<^verbatim>\<open>__module__\<close>, \<^verbatim>\<open>__slots__\<close> and \<^verbatim>\<open>__doc__\<close>, and the attributes of \<^verbatim>\<open>object\<close>
  (CPython 3.11). The class has \<^verbatim>\<open>__slots__\<close>, so an object has no \<^verbatim>\<open>__dict__\<close> and no
  attribute beside these.
\<close>

definition Bot_slots :: "string list" where
  "Bot_slots =
     [''__config'', ''__connected'', ''__debug'', ''__nick'', ''__owners'', ''__pat'',
      ''__plugins'', ''__server'', ''__soc'', ''__irc_COMMAND'', ''__irc_JOIN'',
      ''__irc_KICK'', ''__irc_MODE'', ''__irc_NOTICE'', ''__irc_PRIVMSG'']"

definition Bot_methods :: "string list" where
  "Bot_methods =
     [''__init__'', ''init_events'', ''connect'', ''mainloop'', ''handle_msg'', ''send'',
      ''send_action'', ''join'', ''quit'', ''send_msg'', ''debug_out'', ''on_command'',
      ''on_privmsg'', ''on_kick'', ''on_mode'']"

definition object_attrs :: "string list" where
  "object_attrs =
     [''__class__'', ''__delattr__'', ''__dir__'', ''__doc__'', ''__eq__'', ''__format__'',
      ''__ge__'', ''__getattribute__'', ''__getstate__'', ''__gt__'', ''__hash__'',
      ''__init__'', ''__init_subclass__'', ''__le__'', ''__lt__'', ''__ne__'', ''__new__'',
      ''__reduce__'', ''__reduce_ex__'', ''__repr__'', ''__setattr__'', ''__sizeof__'',
      ''__str__'', ''__subclasshook__'', ''__module__'', ''__slots__'']"

definition Bot_attr_names :: "string list" where
  "Bot_attr_names = map (mangle ''Bot'') (Bot_slots @ Bot_methods) @ object_attrs"

definition Bot_hasattr :: "string \<Rightarrow> bool" where
  "Bot_hasattr name = (name \<in> set Bot_attr_names)"

text \<open>
  A method of the bot returns the new state and the exception that left it, if any.
  \<open>then_do r f\<close> goes on with \<open>f\<close> after a normal return and passes an exception on.
\<close>

definition then_do :: "'s \<times> exn option \<Rightarrow> ('s \<Rightarrow> 's \<times> exn option) \<Rightarrow> 's \<times> exn option" where
  "then_do r f = (case r of (s, None) \<Rightarrow> f s | (s, Some x) \<Rightarrow> (s, Some x))"

text \<open>\<^verbatim>\<open>except Exception\<close> catches every exception of the model but SystemExit.\<close>

fun is_Exception :: "exn \<Rightarrow> bool" where
  "is_Exception (SystemExit n) = False"
| "is_Exception x = True"

definition debug_out :: "Bot \<Rightarrow> dbg \<Rightarrow> Bot" where
  "debug_out b d = (if bot_debug b then b\<lparr>stdout := stdout b @ [d]\<rparr> else b)"

text \<open>
  \<^verbatim>\<open>send\<close>: \<^verbatim>\<open>try: self.__soc.send('{0}\r\n'.format(string).encode())\<close>,
  \<^verbatim>\<open>except Exception as e: self.debug_out(str(e))\<close>.
\<close>

definition send :: "Bot \<Rightarrow> string \<Rightarrow> Bot \<times> exn option" where
  "send b s =
     (case sock_send (bot_soc b) (s @ CRLF) of
        Inr so \<Rightarrow> (b\<lparr>bot_soc := so\<rparr>, None)
      | Inl e \<Rightarrow> (if is_Exception e then (debug_out b (DbgExn e), None) else (b, Some e)))"

definition send_action :: "Bot \<Rightarrow> string \<Rightarrow> pyval \<Rightarrow> Bot \<times> exn option" where
  "send_action b action argument_string = send b (action @ '' '' @ py_str argument_string)"

definition join :: "Bot \<Rightarrow> pyval \<Rightarrow> Bot \<times> exn option" where
  "join b chan = send_action b ''JOIN'' chan"

text \<open>\<^verbatim>\<open>quit\<close>: \<^verbatim>\<open>self.send('QUIT')\<close>, \<^verbatim>\<open>self.__soc.close()\<close>, \<^verbatim>\<open>exit(0)\<close>, which raises SystemExit.\<close>

definition quit :: "Bot \<Rightarrow> Bot \<times> exn option" where
  "quit b =
     then_do (send b ''QUIT'')
       (\<lambda>b1. (b1\<lparr>bot_soc := sock_close (bot_soc b1)\<rparr>, Some (SystemExit 0)))"

definition send_msg :: "Bot \<Rightarrow> pyval \<Rightarrow> pyval \<Rightarrow> Bot \<times> exn option" where
  "send_msg b recip message =
     send_action b ''PRIVMSG'' (PyStr (py_str recip @ '' :'' @ py_str message))"

subsection \<open>Event handlers\<close>

text \<open>
  A handler gets the dictionary \<open>data\<close> and acts on the bot; \<^verbatim>\<open>on_privmsg\<close> also
  assigns to an entry of the dictionary, which the handlers called after it see. So a
  handler is a function on the pair of the dictionary and the bot.
\<close>

definition on_command :: "com \<times> Bot \<Rightarrow> (com \<times> Bot) \<times> exn option" where
  "on_command w =
     (case w of (data, b) \<Rightarrow>
       (case data ''message'' of
          None \<Rightarrow> (w, Some KeyError)
        | Some m \<Rightarrow>
           (case subscript0 m of
              Inl x \<Rightarrow> (w, Some x)
            | Inr tok \<Rightarrow>
               (let b1 = debug_out b (Dbg ''%oHandling command%g: %o{0}'' [MStr tok]) in
                (case data ''nick'' of
                   None \<Rightarrow> ((data, b1), Some KeyError)
                 | Some n \<Rightarrow>
                    (if n \<in> set (map MStr (bot_owners b1)) then
                       (if tok = ''die'' then
                          (case quit (debug_out b1 (Dbg ''%oQuitting%g...'' [])) of
                             (b2, x) \<Rightarrow> ((data, b2), x))
                        else ((data, b1), None))
                     else ((data, b1), None)))))))"

text \<open>
  \<^verbatim>\<open>on_privmsg\<close>. \<open>pub\<close> is the call \<^verbatim>\<open>self.__irc_COMMAND(data)\<close> of an Event; \<open>split\<close> is
  \<^verbatim>\<open>shlex.split\<close> of the Python library, which the model does not fix: any function from
  the argument to a list of tokens or an exception.
\<close>

definition on_privmsg ::
  "(handler Event \<Rightarrow> com \<times> Bot \<Rightarrow> handler list \<times> (com \<times> Bot) \<times> exn option) \<Rightarrow>
   (mval \<Rightarrow> exn + string list) \<Rightarrow> com \<times> Bot \<Rightarrow> (com \<times> Bot) \<times> exn option" where
  "on_privmsg pub split w =
     (case w of (data, b) \<Rightarrow>
       (case data ''message'' of
          None \<Rightarrow> (w, Some KeyError)
        | Some m \<Rightarrow>
           (case subscript0 m of
              Inl x \<Rightarrow> (w, Some x)
            | Inr c \<Rightarrow>
               (if PyStr c = Config_get (bot_config b) ''cchar'' then
                  (case split (slice1 m) of
                     Inl x \<Rightarrow> (w, Some x)
                   | Inr toks \<Rightarrow>
                      (let data1 = data(''message'' \<mapsto> MList toks) in
                       (case subscript0 (MList toks) of
                          Inl x \<Rightarrow> ((data1, b), Some x)
                        | Inr t \<Rightarrow>
                           (case data1 ''nick'' of
                              None \<Rightarrow> ((data1, b), Some KeyError)
                            | Some n \<Rightarrow>
                               (let b1 = debug_out b
                                      (Dbg ''%oReceived command%g, %o{0}%g, %ofrom {1}'' [MStr t, n])
                                in (case pub (irc_COMMAND b1) (data1, b1) of
                                      (tr, w', x) \<Rightarrow> (w', x)))))))
                else (w, None)))))"

definition on_kick :: "com \<times> Bot \<Rightarrow> (com \<times> Bot) \<times> exn option" where
  "on_kick w =
     (case w of (data, b) \<Rightarrow>
       (case data ''orig'' of
          None \<Rightarrow> (w, Some KeyError)
        | Some (MList xs) \<Rightarrow> (w, Some AttributeError)
        | Some (MStr s) \<Rightarrow>
           (let tmp = split_ws s in
            if length tmp < 4 then (w, Some IndexError)
            else if PyStr (tmp ! 3) = bot_nick b
                 then (case join b (PyStr (tmp ! 2)) of (b1, x) \<Rightarrow> ((data, b1), x))
                 else (w, None))))"

definition on_mode :: "com \<times> Bot \<Rightarrow> (com \<times> Bot) \<times> exn option" where
  "on_mode w = (w, None)"

text \<open>
  Calling a handler. \<^verbatim>\<open>on_privmsg\<close> calls an Event, whose handlers may be
  \<^verbatim>\<open>on_privmsg\<close> again (\<^verbatim>\<open>init_events\<close> subscribes it to \<^verbatim>\<open>__irc_COMMAND\<close>): the depth of
  the calls is bounded by \<open>fuel\<close>, as Python bounds it by its recursion limit, and a call
  beyond it raises RecursionError.
\<close>

primrec call_handler ::
  "(mval \<Rightarrow> exn + string list) \<Rightarrow> nat \<Rightarrow> handler \<Rightarrow> com \<times> Bot \<Rightarrow> (com \<times> Bot) \<times> exn option" where
  "call_handler split 0 = (\<lambda>h w. (w, Some RecursionError))"
| "call_handler split (Suc n) =
     (\<lambda>h w. case h of
        On_command \<Rightarrow> on_command w
      | On_privmsg \<Rightarrow> on_privmsg (Event_call (call_handler split n)) split w
      | On_kick \<Rightarrow> on_kick w
      | On_mode \<Rightarrow> on_mode w)"

subsection \<open>The parser and the dispatcher\<close>

text \<open>
  The first lines of \<^verbatim>\<open>handle_msg\<close>: \<^verbatim>\<open>reg = self.__pat.match(data)\<close>; when there is a match,
  \<^verbatim>\<open>com = dict(zip(['nick', 'user', 'action', 'recipient', 'message'],
  [item.rstrip() for item in g if item is not None]))\<close> and \<^verbatim>\<open>com['orig'] = data\<close>. All
  values of this dictionary are strings.
\<close>

definition parse_msg :: "string \<Rightarrow> (string \<rightharpoonup> string) option" where
  "parse_msg data =
     (case re_match Bot_pat 6 data of
        None \<Rightarrow> None
      | Some g \<Rightarrow>
          Some ((map_of (zip [''nick'', ''user'', ''action'', ''recipient'', ''message'']
                            (map rstrip (map the (filter (\<lambda>item. item \<noteq> None) g)))))
                (''orig'' \<mapsto> data)))"

text \<open>
  A line of the shape \<^verbatim>\<open>:nick!user@host COMMAND target :rest\<close>, with single spaces.
  After the target, the space and the colon, the pattern takes every further \<^verbatim>\<open>:\<close>,
  \<^verbatim>\<open>+\<close> and \<^verbatim>\<open>-\<close> into the run \<^verbatim>\<open>[:+-]+\<close>, and the group \<^verbatim>\<open>(.*)\<close> captures what follows
  up to the first line feed: \<open>message_of rest\<close>.
\<close>

definition line_of :: "string \<Rightarrow> string \<Rightarrow> string \<Rightarrow> string \<Rightarrow> string \<Rightarrow> string" where
  "line_of nk uh cmd tgt rest =
     '':'' @ nk @ ''!'' @ uh @ '' '' @ cmd @ '' '' @ tgt @ '' :'' @ rest"

definition marker :: "char \<Rightarrow> bool" where
  "marker c = (c \<in> set '':+-'')"

definition message_of :: "string \<Rightarrow> string" where
  "message_of rest = takeWhile (\<lambda>c. c \<noteq> CHR 0x0A) (dropWhile marker rest)"

text \<open>
  \<^verbatim>\<open>handle_msg\<close>. \<^verbatim>\<open>getattr(self, 'irc_{0}'.format(com['action']))\<close> raises AttributeError
  when the bot has no attribute of that name. \<open>callattr name\<close> stands for the call of the
  attribute \<open>name\<close> with the dictionary, whatever the attribute is. The \<^verbatim>\<open>try\<close> encloses
  the lookup and the call, and catches AttributeError only.
\<close>

definition handle_msg ::
  "(string \<Rightarrow> com \<times> Bot \<Rightarrow> (com \<times> Bot) \<times> exn option) \<Rightarrow> Bot \<Rightarrow> string \<Rightarrow> Bot \<times> exn option" where
  "handle_msg callattr b data =
     (case parse_msg data of
        None \<Rightarrow> (b, None)
      | Some com \<Rightarrow>
         (case com ''action'' of
            None \<Rightarrow> (b, Some KeyError)
          | Some a \<Rightarrow>
             (let b1 = debug_out b (Dbg ''%oCalling event handler for {0}'' [MStr a]) in
              if Bot_hasattr (''irc_'' @ a)
              then (case callattr (''irc_'' @ a) (map_option MStr \<circ> com, b1) of
                      (w, x) \<Rightarrow> (snd w, if x = Some AttributeError then None else x))
              else (b1, None))))"

text \<open>
  One turn of the loop of \<^verbatim>\<open>mainloop\<close> (lines 347-359), for the text \<open>data\<close> that
  \<^verbatim>\<open>recv\<close> and \<^verbatim>\<open>decode\<close> gave.
\<close>

definition mainloop_iter ::
  "(string \<Rightarrow> com \<times> Bot \<Rightarrow> (com \<times> Bot) \<times> exn option) \<Rightarrow> Bot \<Rightarrow> string \<Rightarrow> Bot \<times> exn option" where
  "mainloop_iter callattr b data =
     then_do
       (if startswith data ''PING'' then
          (case split_ws data of
             [] \<Rightarrow> (b, Some IndexError)
           | w # ws \<Rightarrow>
              then_do (send_action b ''PONG'' (PyStr (last (w # ws))))
                (\<lambda>b1. (debug_out b1 (Dbg ''%oPONG%g: %o{0}'' [MStr (last (w # ws))]), None)))
        else
          then_do (handle_msg callattr b data)
            (\<lambda>b1. (debug_out b1 (Dbg ''%o{}'' [MStr data]), None)))
       (\<lambda>b2. if contains data ''End of /MOTD''
             then join (debug_out b2 (Dbg ''%oMOTD done%g!'' [])) (Config_get (bot_config b2) ''channel'')
             else (b2, None))"

text \<open>The loop, over the texts that the socket delivers one after the other.\<close>

fun mainloop_run ::
  "(string \<Rightarrow> com \<times> Bot \<Rightarrow> (com \<times> Bot) \<times> exn option) \<Rightarrow> Bot \<Rightarrow> string list \<Rightarrow> Bot \<times> exn option" where
  "mainloop_run callattr b [] = (b, None)"
| "mainloop_run callattr b (data # rest) =
     (if bot_connected b
      then then_do (mainloop_iter callattr b data) (\<lambda>b'. mainloop_run callattr b' rest)
      else (b, None))"

text \<open>
  The two tests of \<^verbatim>\<open>on_command\<close> that lead to \<^verbatim>\<open>quit\<close>: \<^verbatim>\<open>data['nick'] in self.__owners\<close>
  and \<^verbatim>\<open>data['message'][0] == 'die'\<close>.
\<close>

definition privileged_die :: "com \<Rightarrow> Bot \<Rightarrow> bool" where
  "privileged_die data b =
     ((\<exists>n \<in> set (bot_owners b). data ''nick'' = Some (MStr n)) \<and>
      (\<exists>m. data ''message'' = Some m \<and> subscript0 m = Inr ''die''))"

section \<open>Sample handlers and a sample configuration\<close>

text \<open>
  Handlers for the concrete runs below, on a world that counts the handlers that
  returned. With \<open>demo_run\<close> handler 0 raises ValueError and every other handler
  returns. With \<open>moody_run\<close> handler 0 raises ValueError in the world 0 only, and
  returns in every other world, as every other handler does.
\<close>

definition demo_run :: "nat \<Rightarrow> nat \<Rightarrow> nat \<times> exn option" where
  "demo_run h w = (if h = 0 then (w, Some ValueError) else (Suc w, None))"

definition moody_run :: "nat \<Rightarrow> nat \<Rightarrow> nat \<times> exn option" where
  "moody_run h w = (if h = 0 \<and> w = 0 then (w, Some ValueError) else (Suc w, None))"

text \<open>
  A loaded configuration: the settings of a file \<^verbatim>\<open>irc.cfg\<close> with the lines
  \<^verbatim>\<open>nick: jaintp_bot\<close>, \<^verbatim>\<open>server: irc.freenode.net\<close>, \<^verbatim>\<open>password: lolYouWish!\<close>,
  \<^verbatim>\<open>channel: #jaintp\<close> and \<^verbatim>\<open>command_char: !\<close>.
\<close>

definition basic_config :: Config where
  "basic_config =
     \<lparr>command_char = PyStr ''!'', channel = PyStr ''#jaintp'', filename = PyStr ''irc.cfg'',
      nick = PyStr ''jaintp_bot'', password = PyStr ''lolYouWish!'',
      server = PyStr ''irc.freenode.net''\<rparr>"

text \<open>
  A bot with that configuration and debugging off, its events initialised, marked
  connected, on a socket that is open and writable and on which nothing is written
  yet.
\<close>

definition live_bot :: Bot where
  "live_bot = (init_events (Bot_init basic_config False))
                \<lparr>bot_connected := True, bot_soc := \<lparr>writable = True, closed = False, sent = []\<rparr>\<rparr>"

text \<open>The dictionary of a COMMAND event: the command \<^verbatim>\<open>die\<close> from the sender \<open>n\<close>.\<close>

definition die_event :: "string \<Rightarrow> com" where
  "die_event n = [''nick'' \<mapsto> MStr n, ''message'' \<mapsto> MList [''die'']]"

text \<open>Two lines as the server sends them, and the dictionary of the second.\<close>

definition hello_line :: string where
  "hello_line = '':nick!user@host PRIVMSG #chan :hello''"

definition greet_line :: string where
  "greet_line = '':alice!user@host PRIVMSG #chan :!greet bob'' @ CRLF"

definition greet_com :: "string \<rightharpoonup> string" where
  "greet_com =
     (map_of [(''nick'', ''alice''), (''user'', ''user@host''), (''action'', ''PRIVMSG''),
              (''recipient'', ''#chan''), (''message'', ''!greet bob'')])
     (''orig'' \<mapsto> greet_line)"

definition smiley_line :: string where
  "smiley_line = '':nick!user@host PRIVMSG #chan :-)''"

text \<open>A meaning for the call of an attribute that is not callable: TypeError.\<close>

definition uncallable :: "string \<Rightarrow> com \<times> Bot \<Rightarrow> (com \<times> Bot) \<times> exn option" where
  "uncallable name w = (w, Some TypeError)"

section \<open>Properties of Event\<close>

lemma distinct_Event_iadd: "distinct (handlers e) \<Longrightarrow> distinct (handlers (Event_iadd e h))"
  by (simp add: Event_iadd_def)

lemma Event_isub_total: "\<exists>e'. Event_isub e h = Inr e'"
  by (simp add: Event_isub_def list_remove_def)

lemma distinct_Event_isub:
  "distinct (handlers e) \<Longrightarrow> Event_isub e h = Inr e' \<Longrightarrow> distinct (handlers e')"
  by (auto simp: Event_isub_def list_remove_def split: if_splits)

lemma distinct_apply_op:
  "distinct (handlers (fst s)) \<Longrightarrow> distinct (handlers (fst (apply_op run s c)))"
proof (cases s)
  case (Pair e w)
  assume d: "distinct (handlers (fst s))"
  show ?thesis
  proof (cases c)
    case (Subscribe h)
    with Pair d show ?thesis by (simp add: distinct_Event_iadd)
  next
    case (Unsubscribe h)
    obtain e' where e': "Event_isub e h = Inr e'"
      using Event_isub_total [of e h] by (elim exE)
    with Pair d Unsubscribe show ?thesis
      by (simp add: distinct_Event_isub [OF _ e'])
  next
    case Publish
    with Pair d show ?thesis by simp
  qed
qed

lemma distinct_foldl_apply_op:
  "distinct (handlers (fst s)) \<Longrightarrow> distinct (handlers (fst (foldl (apply_op run) s cs)))"
  by (induction cs arbitrary: s) (simp_all add: distinct_apply_op)

text \<open>
  C10. Every handler list is duplicate-free: after any sequence of subscribe,
  unsubscribe and publish operations on a new Event, whatever the handlers do to the
  world and whether or not they raise, no handler occurs twice in the list; and a
  publish leaves the list as it is.
\<close>

theorem C10_handlers_distinct:
  "distinct (handlers (fst (run_ops run w ops))) \<and>
   fst (apply_op run (fst (run_ops run w ops), w') Publish) = fst (run_ops run w ops)"
proof
  show "distinct (handlers (fst (run_ops run w ops)))"
    unfolding run_ops_def
    by (rule distinct_foldl_apply_op) (simp add: Event_init_def)
  show "fst (apply_op run (fst (run_ops run w ops), w') Publish) = fst (run_ops run w ops)"
    by simp
qed

lemma call_all_raise: "run h w = (w', Some x) \<Longrightarrow> call_all run (h # hs) w = ([h], w', Some x)"
  by simp

lemma call_all_return:
  "run h w = (w', None) \<Longrightarrow>
   call_all run (h # hs) w = (h # fst (call_all run hs w'), snd (call_all run hs w'))"
  by (simp split: prod.splits)

lemma call_all_prefix: "prefix (fst (call_all run hs w)) hs"
proof (induction hs arbitrary: w)
  case Nil
  show ?case by simp
next
  case (Cons h hs)
  obtain w' r where rw: "run h w = (w', r)" by (cases "run h w")
  show ?case
  proof (cases r)
    case None
    with rw Cons show ?thesis by (simp add: call_all_return del: call_all.simps)
  next
    case (Some x)
    with rw show ?thesis by (simp add: call_all_raise del: call_all.simps)
  qed
qed

lemma call_all_append:
  "call_all run hs1 w = (tr, w1, None) \<Longrightarrow>
   call_all run (hs1 @ hs) w = (case call_all run hs w1 of (tr', w', r) \<Rightarrow> (tr @ tr', w', r))"
  by (induction hs1 arbitrary: w tr) (auto split: prod.splits option.splits)

text \<open>
  C2 (as amended). An exception of a handler is not isolated: when the handlers before
  \<open>h\<close> have returned and \<open>h\<close> raises, the publish ends there. The handlers invoked are
  those up to \<open>h\<close>, no handler subscribed after \<open>h\<close> is invoked, and the exception of
  \<open>h\<close> leaves the publish.
\<close>

theorem C2_raise_leaves_publish:
  assumes "handlers e = hs1 @ h # hs2"
    and "call_all run hs1 w = (hs1, w1, None)"
    and "run h w1 = (w2, Some x)"
  shows "Event_call run e w = (hs1 @ [h], w2, Some x)"
  using assms by (simp add: Event_call_def call_all_append)

theorem C2_raise_leaves_publish_witness:
  "Event_call demo_run (Event_iadd (Event_iadd (Event_iadd Event_init 2) 0) 1) 5 =
     ([2, 0], 6, Some ValueError)"
  using C2_raise_leaves_publish
    [of "Event_iadd (Event_iadd (Event_iadd Event_init 2) 0) 1" "[2]" 0 "[1]" demo_run 5 6 6 ValueError]
  by (simp add: Event_iadd_def Event_init_def demo_run_def)

text \<open>
  C2 as the claim states it fails: handler 0 raises, and handler 1, subscribed after it,
  is not invoked in that publish (the world still counts 5).
\<close>

theorem C2_counterexample:
  "handlers (Event_iadd (Event_iadd Event_init 0) (1::nat)) = [0, 1] \<and>
   Event_call demo_run (Event_iadd (Event_iadd Event_init 0) 1) 5 = ([0], 5, Some ValueError)"
  by (simp add: Event_iadd_def Event_init_def demo_run_def Event_call_def)

lemma call_all_no_raise:
  "(\<forall>g\<in>set hs. \<forall>w. snd (run g w) = None) \<Longrightarrow> call_all run hs w = (hs, fst (snd (call_all run hs w)), None)"
proof (induction hs arbitrary: w)
  case Nil
  show ?case by simp
next
  case (Cons h hs)
  from Cons.prems have "snd (run h w) = None" by simp
  then obtain w' where rw: "run h w = (w', None)" by (cases "run h w") auto
  from Cons.prems have "\<forall>g\<in>set hs. \<forall>w. snd (run g w) = None" by simp
  from Cons.IH [OF this, of w'] obtain w'' where "call_all run hs w' = (hs, w'', None)" by metis
  with rw show ?case by (simp add: call_all_return del: call_all.simps)
qed

lemma call_all_Nil: "call_all run [] w = ([], w, None)"
  by simp

lemma count_call_all_publish:
  "h \<in> set hs \<Longrightarrow> distinct hs \<Longrightarrow>
   (count_list (fst (call_all run hs w)) h = 1) = (snd (snd (call_all run (before h hs) w)) = None)"
proof (induction hs arbitrary: w)
  case Nil
  then show ?case by simp
next
  case (Cons g hs)
  obtain w' r where rw: "run g w = (w', r)" by (cases "run g w")
  show ?case
  proof (cases "g = h")
    case True
    with Cons.prems have "h \<notin> set hs" by simp
    moreover have "set (fst (call_all run hs w')) \<subseteq> set hs"
      using call_all_prefix [of run hs w'] by (simp add: set_mono_prefix)
    ultimately have z: "count_list (fst (call_all run hs w')) h = 0"
      by (auto simp: count_list_0_iff)
    have b: "before h (g # hs) = []" using True by (simp add: before_def)
    show ?thesis
    proof (cases r)
      case None
      with rw True z show ?thesis
        unfolding b by (simp add: call_all_return call_all_Nil del: call_all.simps)
    next
      case (Some x)
      with rw True show ?thesis
        unfolding b by (simp add: call_all_raise call_all_Nil del: call_all.simps)
    qed
  next
    case False
    then have b: "before h (g # hs) = g # before h hs" by (simp add: before_def)
    show ?thesis
    proof (cases r)
      case None
      from Cons.prems False have "h \<in> set hs" "distinct hs" by auto
      from Cons.IH [OF this, of w'] rw None False show ?thesis
        unfolding b by (simp add: call_all_return call_all_Nil del: call_all.simps)
    next
      case (Some x)
      with rw False show ?thesis
        unfolding b by (simp add: call_all_raise call_all_Nil del: call_all.simps)
    qed
  qed
qed

lemma handlers_iadd_iadd: "Event_iadd (Event_iadd e h) h = Event_iadd e h"
  by (simp add: Event_iadd_def)

lemma mem_handlers_iadd: "h \<in> set (handlers (Event_iadd e h))"
  by (simp add: Event_iadd_def)

lemma set_handlers_iadd: "set (handlers (Event_iadd e h)) = insert h (set (handlers e))"
  by (auto simp: Event_iadd_def)

lemma count_distinct: "distinct xs \<Longrightarrow> count_list xs h \<le> 1"
  by (induction xs) auto

lemma count_prefix_distinct:
  "prefix tr hs \<Longrightarrow> distinct hs \<Longrightarrow> count_list tr h \<le> 1"
proof -
  assume "prefix tr hs" "distinct hs"
  then have "distinct tr" by (auto simp: prefix_def)
  then show ?thesis by (rule count_distinct)
qed

text \<open>
  C8 (as amended). On an Event reached by subscribe, unsubscribe and publish
  operations: subscribing \<open>h\<close> twice is subscribing it once; a publish invokes \<open>h\<close> at
  most once, and exactly once if and only if no handler subscribed before \<open>h\<close> raises
  in that publish (the handlers before \<open>h\<close>, called in order from the world of the
  publish, all return); unsubscribing \<open>h\<close> raises nothing, changes nothing when \<open>h\<close> is
  not subscribed, and a publish after it does not invoke \<open>h\<close>.
\<close>

theorem C8_subscribe_twice_unsubscribe:
  assumes "e = fst (run_ops run0 w0 ops)"
  shows "Event_iadd (Event_iadd e h) h = Event_iadd e h \<and>
         count_list (fst (Event_call run (Event_iadd (Event_iadd e h) h) w)) h \<le> 1 \<and>
         ((count_list (fst (Event_call run (Event_iadd (Event_iadd e h) h) w)) h = 1) =
          (snd (snd (call_all run (before h (handlers (Event_iadd e h))) w)) = None)) \<and>
         (\<exists>e'. Event_isub e h = Inr e' \<and> (h \<notin> set (handlers e) \<longrightarrow> e' = e) \<and>
               count_list (fst (Event_call run e' w)) h = 0)"
proof -
  have d: "distinct (handlers e)"
    unfolding assms run_ops_def
    by (rule distinct_foldl_apply_op) (simp add: Event_init_def)
  then have d': "distinct (handlers (Event_iadd e h))"
    by (rule distinct_Event_iadd)
  have 1: "Event_iadd (Event_iadd e h) h = Event_iadd e h"
    by (rule handlers_iadd_iadd)
  have 2: "count_list (fst (Event_call run (Event_iadd e h) w)) h \<le> 1"
    unfolding Event_call_def
    by (rule count_prefix_distinct [OF call_all_prefix d'])
  have 3: "(count_list (fst (Event_call run (Event_iadd e h) w)) h = 1) =
           (snd (snd (call_all run (before h (handlers (Event_iadd e h))) w)) = None)"
    unfolding Event_call_def
    by (rule count_call_all_publish [OF mem_handlers_iadd d'])
  obtain e' where e': "Event_isub e h = Inr e'"
    using Event_isub_total [of e h] by (elim exE)
  have same: "e' = e" if "h \<notin> set (handlers e)"
    using e' that by (simp add: Event_isub_def)
  have "h \<notin> set (handlers e')"
    using e' d by (auto simp: Event_isub_def list_remove_def split: if_splits)
  moreover have "set (fst (call_all run (handlers e') w)) \<subseteq> set (handlers e')"
    using call_all_prefix [of run "handlers e'" w] by (simp add: set_mono_prefix)
  ultimately have 4: "count_list (fst (Event_call run e' w)) h = 0"
    by (auto simp: Event_call_def count_list_0_iff)
  from 1 2 3 e' same 4 show ?thesis by simp
qed

theorem C8_subscribe_twice_unsubscribe_witness:
  "handlers (Event_iadd (Event_iadd (fst (run_ops moody_run 0 [Subscribe 0])) 1) 1) = [0, 1] \<and>
   moody_run 0 0 = (0, Some ValueError) \<and>
   count_list (fst (Event_call moody_run
      (Event_iadd (Event_iadd (fst (run_ops moody_run 0 [Subscribe 0])) 1) 1) 5)) 1 = 1 \<and>
   Event_isub (fst (run_ops moody_run 0 [Subscribe 0])) 1 = Inr (fst (run_ops moody_run 0 [Subscribe 0]))"
  using C8_subscribe_twice_unsubscribe [of "fst (run_ops moody_run 0 [Subscribe 0])" moody_run 0 "[Subscribe 0]" 1 moody_run 5]
  by (simp add: run_ops_def Event_init_def Event_iadd_def Event_isub_def moody_run_def
      before_def)

text \<open>
  C8 as the claim states it fails: \<open>h = 1\<close> is subscribed twice behind handler 0, which
  raises; the publish does not invoke \<open>h\<close>.
\<close>

theorem C8_counterexample:
  "count_list (fst (Event_call demo_run
      (Event_iadd (Event_iadd (fst (run_ops demo_run 0 [Subscribe 0])) 1) 1) 0)) 1 = 0"
  by (simp add: run_ops_def Event_init_def Event_iadd_def Event_call_def demo_run_def)

section \<open>Properties of the bot\<close>

subsection \<open>Sending\<close>

lemma sock_send_Inl: "sock_send s d = Inl x \<Longrightarrow> is_Exception x"
  by (auto simp: sock_send_def split: if_splits)

lemma sock_send_Inr: "sock_send s d = Inr so \<Longrightarrow> so = s\<lparr>sent := sent s @ [d]\<rparr>"
  by (auto simp: sock_send_def split: if_splits)

lemma snd_send: "snd (send b s) = None"
  by (auto simp: send_def dest: sock_send_Inl split: sum.splits)

text \<open>
  C9 (as amended). Every text that \<^verbatim>\<open>send\<close> hands to the socket is the string followed
  by CRLF. A failure of the write is not reported to the caller: \<^verbatim>\<open>send\<close> returns
  normally in every case; the exception goes to \<^verbatim>\<open>debug_out\<close> and nowhere else, so with
  debugging off the bot after the failed send is the bot before it.
\<close>

theorem C9_send_keeps_failure:
  "snd (send b s) = None \<and>
   (\<forall>so. sock_send (bot_soc b) (s @ CRLF) = Inr so \<longrightarrow>
      fst (send b s) = b\<lparr>bot_soc := so\<rparr> \<and> sent so = sent (bot_soc b) @ [s @ CRLF]) \<and>
   (\<forall>x. sock_send (bot_soc b) (s @ CRLF) = Inl x \<longrightarrow>
      fst (send b s) = debug_out b (DbgExn x) \<and> bot_soc (fst (send b s)) = bot_soc b \<and>
      (\<not> bot_debug b \<longrightarrow> fst (send b s) = b))"
proof (intro conjI allI impI)
  show "snd (send b s) = None" by (rule snd_send)
next
  fix so assume a: "sock_send (bot_soc b) (s @ CRLF) = Inr so"
  then show "fst (send b s) = b\<lparr>bot_soc := so\<rparr>" by (simp add: send_def)
  from sock_send_Inr [OF a] show "sent so = sent (bot_soc b) @ [s @ CRLF]" by simp
next
  fix x assume a: "sock_send (bot_soc b) (s @ CRLF) = Inl x"
  with sock_send_Inl [OF a] show 1: "fst (send b s) = debug_out b (DbgExn x)"
    by (simp add: send_def)
  then show "bot_soc (fst (send b s)) = bot_soc b" by (simp add: debug_out_def)
  assume "\<not> bot_debug b"
  with 1 show "fst (send b s) = b" by (simp add: debug_out_def)
qed

theorem C9_send_keeps_failure_witness:
  "send live_bot ''JOIN #jaintp'' =
     (live_bot\<lparr>bot_soc := \<lparr>writable = True, closed = False, sent = [''JOIN #jaintp'' @ CRLF]\<rparr>\<rparr>, None)"
  using C9_send_keeps_failure [of live_bot "''JOIN #jaintp''"]
  by (simp add: live_bot_def send_def sock_send_def init_events_def Bot_init_def Let_def)

text \<open>
  C9 as the claim states it fails: the socket of a new bot is not connected, the write
  of \<^verbatim>\<open>QUIT\<close> raises, and \<^verbatim>\<open>send\<close> returns normally with the bot unchanged.
\<close>

theorem C9_counterexample:
  "sock_send (bot_soc (Bot_init basic_config False)) (''QUIT'' @ CRLF) = Inl (OSError ''[Errno 32] Broken pipe'') \<and>
   send (Bot_init basic_config False) ''QUIT'' = (Bot_init basic_config False, None)"
  by (simp add: send_def sock_send_def Bot_init_def debug_out_def)

subsection \<open>The command handler\<close>

lemma quit_eq:
  "quit b = ((fst (send b ''QUIT''))\<lparr>bot_soc := sock_close (bot_soc (fst (send b ''QUIT'')))\<rparr>, Some (SystemExit 0))"
  using snd_send [of b "''QUIT''"]
  by (cases "send b ''QUIT''") (simp add: quit_def then_do_def)

lemma bot_soc_debug_out [simp]: "bot_soc (debug_out b d) = bot_soc b"
  by (simp add: debug_out_def)

lemma bot_owners_debug_out [simp]: "bot_owners (debug_out b d) = bot_owners b"
  by (simp add: debug_out_def)

lemma bot_config_debug_out [simp]: "bot_config (debug_out b d) = bot_config b"
  by (simp add: debug_out_def)

lemma send_soc:
  "bot_soc (fst (send b s)) =
     (if writable (bot_soc b) \<and> \<not> closed (bot_soc b)
      then (bot_soc b)\<lparr>sent := sent (bot_soc b) @ [s @ CRLF]\<rparr> else bot_soc b)"
  by (simp add: send_def sock_send_def)

lemma on_command_quit:
  "privileged_die data b \<Longrightarrow>
   on_command (data, b) =
     (case quit (debug_out (debug_out b (Dbg ''%oHandling command%g: %o{0}'' [MStr ''die'']))
                    (Dbg ''%oQuitting%g...'' [])) of (b2, x) \<Rightarrow> ((data, b2), x))"
  by (auto simp: privileged_die_def on_command_def Let_def)

lemma on_command_other:
  "\<not> privileged_die data b \<Longrightarrow>
   bot_soc (snd (fst (on_command (data, b)))) = bot_soc b \<and>
   snd (on_command (data, b)) \<in> {None, Some KeyError, Some IndexError}"
  by (auto simp: privileged_die_def on_command_def Let_def subscript0_def
      split: option.splits sum.splits mval.splits list.splits)


text \<open>
  C5. \<^verbatim>\<open>on_command\<close> ends the session (SystemExit leaves it, after \<^verbatim>\<open>QUIT\<close> was handed to
  a writable socket and the socket was closed) if and only if the nick of the sender is
  among the owners and the first token of the command is \<^verbatim>\<open>die\<close>. In every other case
  the socket is untouched and the handler returns or raises KeyError or IndexError: a
  sender who is not an owner never ends the session.
\<close>

theorem C5_shutdown_iff_owner_and_die:
  "(snd (on_command (data, b)) = Some (SystemExit 0)) = privileged_die data b \<and>
   (privileged_die data b \<longrightarrow>
      bot_soc (snd (fst (on_command (data, b)))) =
        (if writable (bot_soc b) \<and> \<not> closed (bot_soc b)
         then (bot_soc b)\<lparr>closed := True, sent := sent (bot_soc b) @ [''QUIT'' @ CRLF]\<rparr>
         else (bot_soc b)\<lparr>closed := True\<rparr>)) \<and>
   (\<not> privileged_die data b \<longrightarrow>
      bot_soc (snd (fst (on_command (data, b)))) = bot_soc b \<and>
      snd (on_command (data, b)) \<in> {None, Some KeyError, Some IndexError})"
proof (cases "privileged_die data b")
  case True
  then show ?thesis
    by (simp add: on_command_quit quit_eq send_soc sock_close_def)
next
  case False
  with on_command_other [OF False] show ?thesis by auto
qed

theorem C5_shutdown_iff_owner_and_die_witness:
  "snd (on_command (die_event ''JaINTP'', live_bot)) = Some (SystemExit 0) \<and>
   bot_soc (snd (fst (on_command (die_event ''JaINTP'', live_bot)))) =
     \<lparr>writable = True, closed = True, sent = [''QUIT'' @ CRLF]\<rparr> \<and>
   snd (on_command (die_event ''mallory'', live_bot)) = None \<and>
   bot_soc (snd (fst (on_command (die_event ''mallory'', live_bot)))) =
     \<lparr>writable = True, closed = False, sent = []\<rparr>"
  using C5_shutdown_iff_owner_and_die [of "die_event ''JaINTP''" live_bot]
    C5_shutdown_iff_owner_and_die [of "die_event ''mallory''" live_bot]
  by (simp add: privileged_die_def die_event_def live_bot_def init_events_def Bot_init_def
      subscript0_def Let_def on_command_def debug_out_def quit_def send_def sock_send_def
      then_do_def sock_close_def)

subsection \<open>Attribute lookup\<close>

lemma Config_get_cchar: "Config_get c ''cchar'' = PyNone"
  by (simp add: Config_get_def Config_private_def mangle_def startswith_def endswith_def)

lemma Config_get_command_char: "Config_get c ''command_char'' = command_char c"
  by (simp add: Config_get_def Config_private_def mangle_def startswith_def endswith_def)

lemma Config_get_channel: "Config_get c ''channel'' = channel c"
  by (simp add: Config_get_def Config_private_def mangle_def startswith_def endswith_def)

lemma on_privmsg_no_publish:
  "on_privmsg pub split w =
     (case fst w ''message'' of
        None \<Rightarrow> (w, Some KeyError)
      | Some m \<Rightarrow> (case subscript0 m of Inl x \<Rightarrow> (w, Some x) | Inr c \<Rightarrow> (w, None)))"
  by (cases w) (simp add: on_privmsg_def Config_get_cchar split: option.splits sum.splits)

lemma Bot_attr_names_eval:
  "Bot_attr_names =
     [''_Bot__config'', ''_Bot__connected'', ''_Bot__debug'', ''_Bot__nick'', ''_Bot__owners'',
      ''_Bot__pat'', ''_Bot__plugins'', ''_Bot__server'', ''_Bot__soc'', ''_Bot__irc_COMMAND'',
      ''_Bot__irc_JOIN'', ''_Bot__irc_KICK'', ''_Bot__irc_MODE'', ''_Bot__irc_NOTICE'',
      ''_Bot__irc_PRIVMSG'', ''__init__'', ''init_events'', ''connect'', ''mainloop'',
      ''handle_msg'', ''send'', ''send_action'', ''join'', ''quit'', ''send_msg'', ''debug_out'',
      ''on_command'', ''on_privmsg'', ''on_kick'', ''on_mode''] @ object_attrs"
  by (simp add: Bot_attr_names_def Bot_slots_def Bot_methods_def mangle_def startswith_def
      endswith_def)

lemma no_irc_attr: "\<not> Bot_hasattr (''irc_'' @ a)"
  by (simp add: Bot_hasattr_def Bot_attr_names_eval object_attrs_def)

lemma no_irc_attr_Cons: "\<not> Bot_hasattr (CHR ''i'' # CHR ''r'' # CHR ''c'' # CHR ''_'' # a)"
  using no_irc_attr [of a] by simp

lemma has_mangled_attr: "Bot_hasattr ''_Bot__irc_PRIVMSG''"
  by (simp add: Bot_hasattr_def Bot_attr_names_eval)

lemma handle_msg_no_call:
  "handle_msg callattr b data =
     (case parse_msg data of
        None \<Rightarrow> (b, None)
      | Some com \<Rightarrow>
         (case com ''action'' of
            None \<Rightarrow> (b, Some KeyError)
          | Some a \<Rightarrow> (debug_out b (Dbg ''%oCalling event handler for {0}'' [MStr a]), None)))"
  by (simp add: handle_msg_def no_irc_attr_Cons Let_def split: option.splits)

subsection \<open>The handlers of the signals\<close>

text \<open>
  After \<^verbatim>\<open>init_events\<close> the COMMAND signal has the handlers \<^verbatim>\<open>on_command\<close> and
  \<^verbatim>\<open>on_privmsg\<close>, and the PRIVMSG signal has none. A publish on COMMAND ends the session
  exactly when \<^verbatim>\<open>on_command\<close> does: \<^verbatim>\<open>on_privmsg\<close> behind it publishes nothing.
\<close>

lemma init_events_handlers:
  "handlers (irc_COMMAND (init_events (Bot_init cfg d))) = [On_command, On_privmsg]"
  "handlers (irc_KICK (init_events (Bot_init cfg d))) = [On_kick]"
  "handlers (irc_MODE (init_events (Bot_init cfg d))) = [On_mode]"
  "handlers (irc_PRIVMSG (init_events (Bot_init cfg d))) = []"
  "handlers (irc_JOIN (init_events (Bot_init cfg d))) = []"
  "handlers (irc_NOTICE (init_events (Bot_init cfg d))) = []"
  by (simp_all add: init_events_def Bot_init_def Event_iadd_def Event_init_def Let_def)

lemma on_privmsg_no_exit: "snd (on_privmsg pub split w) \<in> {None, Some KeyError, Some IndexError}"
  by (auto simp: on_privmsg_no_publish subscript0_def
      split: option.splits sum.splits mval.splits list.splits)

lemma COMMAND_publish_shutdown:
  assumes "handlers e = [On_command, On_privmsg]"
  shows "(snd (snd (Event_call (call_handler split (Suc n)) e (data, b))) = Some (SystemExit 0)) =
         privileged_die data b"
proof (cases "privileged_die data b")
  case True
  then have "snd (on_command (data, b)) = Some (SystemExit 0)"
    by (simp add: on_command_quit quit_eq)
  then obtain w1 where "on_command (data, b) = (w1, Some (SystemExit 0))"
    by (cases "on_command (data, b)") auto
  with True assms show ?thesis by (simp add: Event_call_def)
next
  case False
  obtain w1 r where oc: "on_command (data, b) = (w1, r)" by (cases "on_command (data, b)")
  from on_command_other [OF False] oc have r: "r \<in> {None, Some KeyError, Some IndexError}" by simp
  obtain w2 r2 where op: "on_privmsg (Event_call (call_handler split n)) split w1 = (w2, r2)"
    by (cases "on_privmsg (Event_call (call_handler split n)) split w1")
  from on_privmsg_no_exit [of "Event_call (call_handler split n)" split w1] op
  have r2: "r2 \<in> {None, Some KeyError, Some IndexError}" by simp
  from False assms oc op r r2 show ?thesis
    by (auto simp: Event_call_def)
qed

subsection \<open>Dispatch\<close>

lemma re_match_hello_line:
  "re_match Bot_pat 6 hello_line =
     Some [Some ''nick'', Some ''user@host'', Some ''PRIVMSG'', Some ''#chan'', Some ''hello'', None]"
  by code_simp

lemma re_match_greet_line:
  "re_match Bot_pat 6 greet_line =
     Some [Some ''alice'', Some ''user@host'', Some ''PRIVMSG'', Some ''#chan'',
           Some (''!greet bob'' @ [CHR 0x0D]), None]"
  by code_simp

lemma rstrip_evals:
  "rstrip ''nick'' = ''nick''" "rstrip ''alice'' = ''alice''" "rstrip ''user@host'' = ''user@host''"
  "rstrip ''PRIVMSG'' = ''PRIVMSG''" "rstrip ''#chan'' = ''#chan''" "rstrip ''hello'' = ''hello''"
  by code_simp+

lemma rstrip_greet_CR: "rstrip (''!greet bob'' @ [CHR 0x0D]) = ''!greet bob''"
  by code_simp

lemma parse_msg_hello_line:
  "parse_msg hello_line =
     Some ((map_of [(''nick'', ''nick''), (''user'', ''user@host''), (''action'', ''PRIVMSG''),
                    (''recipient'', ''#chan''), (''message'', ''hello'')])
           (''orig'' \<mapsto> hello_line))"
  by (simp add: parse_msg_def re_match_hello_line rstrip_evals)

lemma parse_msg_greet_line: "parse_msg greet_line = Some greet_com"
  by (simp add: parse_msg_def re_match_greet_line rstrip_evals rstrip_greet_CR [simplified] greet_com_def)

text \<open>
  C1, at the line \<^verbatim>\<open>:nick!user@host PRIVMSG #chan :hello\<close>. The line is parsed, with the
  command verb \<^verbatim>\<open>PRIVMSG\<close>, and \<^verbatim>\<open>handle_msg\<close> returns without calling anything, whatever
  the call of an attribute would do: the bot has no attribute \<^verbatim>\<open>irc_PRIVMSG\<close> (the Event
  is the attribute \<^verbatim>\<open>_Bot__irc_PRIVMSG\<close>), the lookup raises AttributeError and the
  \<^verbatim>\<open>except\<close> clause passes. The handlers of the PRIVMSG signal do not run.
\<close>

theorem C1_parsed_message_not_dispatched:
  "parse_msg hello_line =
     Some ((map_of [(''nick'', ''nick''), (''user'', ''user@host''), (''action'', ''PRIVMSG''),
                    (''recipient'', ''#chan''), (''message'', ''hello'')])
           (''orig'' \<mapsto> hello_line)) \<and>
   handle_msg callattr b hello_line =
     (debug_out b (Dbg ''%oCalling event handler for {0}'' [MStr ''PRIVMSG'']), None) \<and>
   \<not> Bot_hasattr ''irc_PRIVMSG'' \<and> Bot_hasattr ''_Bot__irc_PRIVMSG''"
  using no_irc_attr [of "''PRIVMSG''"]
  by (simp add: handle_msg_no_call parse_msg_hello_line has_mangled_attr)

text \<open>
  C4, at the line \<^verbatim>\<open>:alice!user@host PRIVMSG #chan :!greet bob\<close> and a configuration
  whose command prefix is \<^verbatim>\<open>!\<close>. \<^verbatim>\<open>on_privmsg\<close> asks the configuration for \<^verbatim>\<open>cchar\<close>,
  which no Config has (the slot is \<^verbatim>\<open>command_char\<close>): the answer is \<^verbatim>\<open>None\<close>, the test
  fails, and \<^verbatim>\<open>on_privmsg\<close> returns without a publish, whatever the publish and
  \<^verbatim>\<open>shlex.split\<close> would do. The turn of the loop that receives the line calls no
  handler either: it only writes its two debug lines.
\<close>

theorem C4_prefixed_message_publishes_nothing:
  "parse_msg greet_line = Some greet_com \<and>
   Config_get ((bot_config b)\<lparr>command_char := PyStr ''!''\<rparr>) ''cchar'' = PyNone \<and>
   on_privmsg pub split
       (map_option MStr \<circ> greet_com, b\<lparr>bot_config := (bot_config b)\<lparr>command_char := PyStr ''!''\<rparr>\<rparr>) =
     ((map_option MStr \<circ> greet_com, b\<lparr>bot_config := (bot_config b)\<lparr>command_char := PyStr ''!''\<rparr>\<rparr>), None) \<and>
   mainloop_iter callattr (b\<lparr>bot_config := (bot_config b)\<lparr>command_char := PyStr ''!''\<rparr>\<rparr>) greet_line =
     (debug_out
        (debug_out (b\<lparr>bot_config := (bot_config b)\<lparr>command_char := PyStr ''!''\<rparr>\<rparr>)
           (Dbg ''%oCalling event handler for {0}'' [MStr ''PRIVMSG'']))
        (Dbg ''%o{}'' [MStr greet_line]), None)"
proof -
  have 1: "startswith greet_line ''PING'' = False" by code_simp
  have 2: "contains greet_line ''End of /MOTD'' = False" by code_simp
  have 3: "greet_com ''message'' = Some ''!greet bob''" "greet_com ''action'' = Some ''PRIVMSG''"
    by (simp_all add: greet_com_def)
  show ?thesis
    by (simp add: parse_msg_greet_line Config_get_cchar on_privmsg_no_publish 3 subscript0_def
        mainloop_iter_def 1 2 handle_msg_no_call then_do_def)
qed


subsection \<open>Keep-alive\<close>

lemma then_do_send: "then_do (send b s) f = f (fst (send b s))"
  using snd_send [of b s] by (cases "send b s") (simp add: then_do_def)

lemma then_do_return: "then_do (x, None) f = f x"
  by (simp add: then_do_def)

text \<open>
  C6. In every state of the bot, the turn of the loop that receives \<^verbatim>\<open>PING :abc123\<close>
  (with or without the line terminator) is one call of \<^verbatim>\<open>send\<close> with \<^verbatim>\<open>PONG :abc123\<close>
  and one debug line; when the socket takes the write, exactly the line
  \<^verbatim>\<open>PONG :abc123\<close> with CRLF is added to what was sent.
\<close>

theorem C6_ping_answered_by_one_pong:
  "mainloop_iter callattr b ''PING :abc123'' =
     (debug_out (fst (send b ''PONG :abc123'')) (Dbg ''%oPONG%g: %o{0}'' [MStr '':abc123'']), None) \<and>
   mainloop_iter callattr b (''PING :abc123'' @ CRLF) =
     (debug_out (fst (send b ''PONG :abc123'')) (Dbg ''%oPONG%g: %o{0}'' [MStr '':abc123'']), None) \<and>
   (writable (bot_soc b) \<and> \<not> closed (bot_soc b) \<longrightarrow>
      bot_soc (fst (mainloop_iter callattr b ''PING :abc123'')) =
        (bot_soc b)\<lparr>sent := sent (bot_soc b) @ [''PONG :abc123'' @ CRLF]\<rparr> \<and>
      bot_soc (fst (mainloop_iter callattr b (''PING :abc123'' @ CRLF))) =
        (bot_soc b)\<lparr>sent := sent (bot_soc b) @ [''PONG :abc123'' @ CRLF]\<rparr>)"
proof -
  have 2: "split_ws ''PING :abc123'' = [''PING'', '':abc123'']"
    "split_ws (''PING :abc123'' @ CRLF) = [''PING'', '':abc123'']"
    by code_simp+
  have a: "mainloop_iter callattr b ''PING :abc123'' =
     (debug_out (fst (send b ''PONG :abc123'')) (Dbg ''%oPONG%g: %o{0}'' [MStr '':abc123'']), None)"
    by (simp add: mainloop_iter_def 2 startswith_def send_action_def then_do_send then_do_return)
  have b: "mainloop_iter callattr b (''PING :abc123'' @ CRLF) =
     (debug_out (fst (send b ''PONG :abc123'')) (Dbg ''%oPONG%g: %o{0}'' [MStr '':abc123'']), None)"
    using 2(2)
    by (simp add: mainloop_iter_def startswith_def CRLF_def send_action_def then_do_send
        then_do_return)
  show ?thesis
    unfolding a b by (simp add: send_soc)
qed

theorem C6_ping_answered_by_one_pong_witness:
  "bot_soc (fst (mainloop_iter uncallable live_bot ''PING :abc123'')) =
     \<lparr>writable = True, closed = False, sent = [''PONG :abc123'' @ CRLF]\<rparr>"
proof -
  have "writable (bot_soc live_bot) \<and> \<not> closed (bot_soc live_bot)"
    by (simp add: live_bot_def)
  with C6_ping_answered_by_one_pong [of uncallable live_bot]
  have "bot_soc (fst (mainloop_iter uncallable live_bot ''PING :abc123'')) =
        (bot_soc live_bot)\<lparr>sent := sent (bot_soc live_bot) @ [''PONG :abc123'' @ CRLF]\<rparr>"
    by blast
  then show ?thesis by (simp add: live_bot_def)
qed

subsection \<open>Lines without an origin\<close>

lemma rmatch_Bot_pat_no_colon: "\<not> startswith data '':'' \<Longrightarrow> rmatch Bot_pat data caps = None"
  by (cases data) (simp_all add: Bot_pat_def startswith_def)

lemma split_acc_word: "w \<noteq> [] \<Longrightarrow> split_acc w s \<noteq> []"
  by (induction s arbitrary: w) auto

lemma split_ws_PING: "startswith data ''PING'' \<Longrightarrow> split_ws data \<noteq> []"
proof -
  assume "startswith data ''PING''"
  then obtain rest where "data = CHR ''P'' # rest"
    by (cases data) (auto simp: startswith_def)
  then show ?thesis
    by (simp add: split_ws_def isspace_def split_acc_word)
qed

lemma mainloop_iter_PING:
  assumes "startswith data ''PING''"
  shows "mainloop_iter callattr b data =
     (let b1 = debug_out (fst (send b (''PONG '' @ last (split_ws data))))
                 (Dbg ''%oPONG%g: %o{0}'' [MStr (last (split_ws data))])
      in if contains data ''End of /MOTD''
         then join (debug_out b1 (Dbg ''%oMOTD done%g!'' [])) (Config_get (bot_config b1) ''channel'')
         else (b1, None))"
proof -
  from split_ws_PING [OF assms] obtain x xs where s: "split_ws data = x # xs"
    by (cases "split_ws data") auto
  show ?thesis
    using assms unfolding mainloop_iter_def s
    by (simp add: send_action_def then_do_send then_do_return Let_def del: last.simps)
qed


text \<open>
  C7 (as amended). The parser accepts no line without an origin prefix: for a line that
  does not start with a colon there is no match, no dictionary is built, and
  \<^verbatim>\<open>handle_msg\<close> returns with the bot unchanged. A line that starts with \<^verbatim>\<open>PING\<close> is
  answered by the loop itself, which does not ask the parser: the turn is one \<^verbatim>\<open>send\<close>
  of \<^verbatim>\<open>PONG\<close> with the last word of the data and one debug line, followed by the test for
  the end of the MOTD.
\<close>

theorem C7_no_origin_no_message:
  "(\<not> startswith data '':'' \<longrightarrow>
      parse_msg data = None \<and> handle_msg callattr b data = (b, None)) \<and>
   (startswith data ''PING'' \<longrightarrow>
      mainloop_iter callattr b data =
        (let b1 = debug_out (fst (send b (''PONG '' @ last (split_ws data))))
                    (Dbg ''%oPONG%g: %o{0}'' [MStr (last (split_ws data))])
         in if contains data ''End of /MOTD''
            then join (debug_out b1 (Dbg ''%oMOTD done%g!'' []))
                   (Config_get (bot_config b1) ''channel'')
            else (b1, None)))"
proof (intro conjI impI)
  assume a: "\<not> startswith data '':''"
  then show "parse_msg data = None"
    by (simp add: parse_msg_def re_match_def rmatch_Bot_pat_no_colon)
  then show "handle_msg callattr b data = (b, None)"
    by (simp add: handle_msg_def)
next
  assume "startswith data ''PING''"
  then show "mainloop_iter callattr b data =
        (let b1 = debug_out (fst (send b (''PONG '' @ last (split_ws data))))
                    (Dbg ''%oPONG%g: %o{0}'' [MStr (last (split_ws data))])
         in if contains data ''End of /MOTD''
            then join (debug_out b1 (Dbg ''%oMOTD done%g!'' []))
                   (Config_get (bot_config b1) ''channel'')
            else (b1, None))"
    by (rule mainloop_iter_PING)
qed

theorem C7_no_origin_no_message_witness:
  "handle_msg uncallable live_bot ''PING :token'' = (live_bot, None) \<and>
   bot_soc (fst (mainloop_iter uncallable live_bot ''PING :token'')) =
     \<lparr>writable = True, closed = False, sent = [''PONG :token'' @ CRLF]\<rparr>"
proof -
  have s: "split_ws ''PING :token'' = [''PING'', '':token'']" by code_simp
  have p: "startswith ''PING :token'' ''PING''" "\<not> startswith ''PING :token'' '':''"
    by (simp_all add: startswith_def)
  have m: "contains ''PING :token'' ''End of /MOTD'' = False"
    by (simp add: startswith_def)
  from C7_no_origin_no_message [of "''PING :token''" uncallable live_bot] p
  have 1: "handle_msg uncallable live_bot ''PING :token'' = (live_bot, None)"
    and 2: "mainloop_iter uncallable live_bot ''PING :token'' =
        (let b1 = debug_out (fst (send live_bot (''PONG '' @ last (split_ws ''PING :token''))))
                    (Dbg ''%oPONG%g: %o{0}'' [MStr (last (split_ws ''PING :token''))])
         in if contains ''PING :token'' ''End of /MOTD''
            then join (debug_out b1 (Dbg ''%oMOTD done%g!'' []))
                   (Config_get (bot_config b1) ''channel'')
            else (b1, None))"
    by blast+
  have "bot_soc (fst (mainloop_iter uncallable live_bot ''PING :token'')) =
        bot_soc (fst (send live_bot ''PONG :token''))"
    unfolding 2 s m by (simp add: Let_def)
  then show ?thesis
    using 1 by (simp add: send_soc live_bot_def)
qed

text \<open>C7 as the claim states it fails: \<^verbatim>\<open>PING :token\<close> does not parse.\<close>

theorem C7_counterexample:
  "parse_msg ''PING :token'' = None"
  by (simp add: parse_msg_def re_match_def Bot_pat_def)

section \<open>Properties of the parser\<close>

subsection \<open>The matcher on a run of characters\<close>

lemma first_some_hd: "f x = Some r \<Longrightarrow> first_some f (x # xs) = Some r"
  by simp

lemma rev_upt_last: "lo \<le> n \<Longrightarrow> rev [lo ..< Suc n] = n # rev [lo ..< n]"
  by simp

lemma run_len_token:
  assumes "\<forall>c\<in>set tok. atom_ok a c" and "rest = [] \<or> \<not> atom_ok a (hd rest)"
  shows "run_len a (tok @ rest) = length tok"
proof -
  have "takeWhile (atom_ok a) rest = []"
    using assms(2) by (cases rest) auto
  with assms(1) show ?thesis
    by (simp add: run_len_def takeWhile_append2)
qed

lemma plus_token:
  assumes "tok \<noteq> []" and "\<forall>c\<in>set tok. atom_ok a c" and "rest = [] \<or> \<not> atom_ok a (hd rest)"
    and "rmatch k rest caps = Some r"
  shows "rmatch (Plus a # k) (tok @ rest) caps = Some r"
proof -
  have n: "run_len a (tok @ rest) = length tok"
    by (rule run_len_token [OF assms(2,3)])
  from assms(1) have "1 \<le> length tok" by (cases tok) auto
  then have "rev [1 ..< Suc (length tok)] = length tok # rev [1 ..< length tok]"
    by (rule rev_upt_last)
  with assms(4) show ?thesis by (simp add: n)
qed

lemma star_token:
  assumes "\<forall>c\<in>set tok. atom_ok a c" and "rest = [] \<or> \<not> atom_ok a (hd rest)"
    and "rmatch k rest caps = Some r"
  shows "rmatch (Star a # k) (tok @ rest) caps = Some r"
proof -
  have n: "run_len a (tok @ rest) = length tok"
    by (rule run_len_token [OF assms(1,2)])
  have "rev [0 ..< Suc (length tok)] = length tok # rev [0 ..< length tok]"
    by (rule rev_upt_last) simp
  with assms(3) show ?thesis by (simp add: n)
qed

lemma group_plus_token:
  assumes "tok \<noteq> []" and "\<forall>c\<in>set tok. atom_ok a c" and "rest = [] \<or> \<not> atom_ok a (hd rest)"
    and "rmatch k rest (caps(i \<mapsto> tok)) = Some r"
  shows "rmatch (Group i [Plus a] # k) (tok @ rest) caps = Some r"
proof -
  have "rmatch (EndGroup i (tok @ rest) # k) rest caps = Some r"
    using assms(4) by simp
  from plus_token [OF assms(1,2,3) this] show ?thesis by simp
qed

lemma group_star_token:
  assumes "\<forall>c\<in>set tok. atom_ok a c" and "rest = [] \<or> \<not> atom_ok a (hd rest)"
    and "rmatch k rest (caps(i \<mapsto> tok)) = Some r"
  shows "rmatch (Group i [Star a] # k) (tok @ rest) caps = Some r"
proof -
  have "rmatch (EndGroup i (tok @ rest) # k) rest caps = Some r"
    using assms(3) by simp
  from star_token [OF assms(1,2) this] show ?thesis by simp
qed

lemma opt_absent:
  assumes "s = [] \<or> \<not> atom_ok a (hd s)"
  shows "rmatch (Opt a # k) s caps = rmatch k s caps"
proof -
  have "run_len a s = 0"
    using assms by (cases s) (auto simp: run_len_def)
  then show ?thesis by (simp split: option.splits)
qed

lemma plus_absent:
  assumes "s = [] \<or> \<not> atom_ok a (hd s)"
  shows "rmatch (Plus a # k) s caps = None"
proof -
  have "run_len a s = 0"
    using assms by (cases s) (auto simp: run_len_def)
  then show ?thesis by simp
qed

subsection \<open>The pattern of the bot on a line with an origin\<close>

lemma tail_of_pattern:
  "rmatch [OptNC [Plus (AnyOf '':+-''), Group 5 [Star Dot]],
           OptNC [Plus (AnyOf '':+-''), Group 6 [Star Dot]]] (CHR '':'' # rest) caps =
   Some (caps(5 \<mapsto> message_of rest))"
proof -
  define r1 where "r1 = dropWhile marker rest"
  define r2 where "r2 = dropWhile (\<lambda>c. c \<noteq> CHR 0x0A) r1"
  define B6 where "B6 = [Plus (AnyOf '':+-''), Group 6 [Star Dot]]"
  have ok: "atom_ok (AnyOf '':+-'') = marker"
    by (rule ext) (simp add: marker_def)
  have dot: "atom_ok Dot = (\<lambda>c. c \<noteq> CHR 0x0A)"
    by (rule ext) simp
  have b2: "r2 = [] \<or> \<not> atom_ok (AnyOf '':+-'') (hd r2)"
    unfolding r2_def by (cases "dropWhile (\<lambda>c. c \<noteq> CHR 0x0A) r1") (use hd_dropWhile [of "\<lambda>c. c \<noteq> CHR 0x0A" r1] in auto)
  have "rmatch (B6 @ []) r2 c = None" for c
    unfolding B6_def by (simp only: append.simps plus_absent [OF b2])
  then have e2: "rmatch [OptNC B6] r2 c = Some c" for c
    by simp
  have b2': "r2 = [] \<or> \<not> atom_ok Dot (hd r2)"
    unfolding r2_def by (cases "dropWhile (\<lambda>c. c \<noteq> CHR 0x0A) r1") (use hd_dropWhile [of "\<lambda>c. c \<noteq> CHR 0x0A" r1] in auto)
  have t1: "\<forall>c\<in>set (takeWhile (\<lambda>c. c \<noteq> CHR 0x0A) r1). atom_ok Dot c"
    by (auto dest: set_takeWhileD)
  have "rmatch (Group 5 [Star Dot] # [OptNC B6]) (takeWhile (\<lambda>c. c \<noteq> CHR 0x0A) r1 @ r2) caps =
        Some (caps(5 \<mapsto> takeWhile (\<lambda>c. c \<noteq> CHR 0x0A) r1))"
    by (rule group_star_token [OF t1 b2' e2])
  then have e1: "rmatch [Group 5 [Star Dot], OptNC B6] r1 caps = Some (caps(5 \<mapsto> message_of rest))"
    by (simp add: r2_def message_of_def r1_def)
  have b1: "r1 = [] \<or> \<not> atom_ok (AnyOf '':+-'') (hd r1)"
    unfolding r1_def ok by (cases "dropWhile marker rest") (use hd_dropWhile [of marker rest] in auto)
  have t0: "\<forall>c\<in>set (CHR '':'' # takeWhile marker rest). atom_ok (AnyOf '':+-'') c"
    unfolding ok by (auto simp: marker_def dest: set_takeWhileD)
  have "rmatch (Plus (AnyOf '':+-'') # [Group 5 [Star Dot], OptNC B6])
          ((CHR '':'' # takeWhile marker rest) @ r1) caps = Some (caps(5 \<mapsto> message_of rest))"
    by (rule plus_token [OF _ t0 b1 e1]) simp
  then have "rmatch ([Plus (AnyOf '':+-''), Group 5 [Star Dot]] @ [OptNC B6]) (CHR '':'' # rest) caps =
        Some (caps(5 \<mapsto> message_of rest))"
    by (simp add: r1_def)
  then show ?thesis
    unfolding B6_def by (simp del: append.simps)
qed


lemma one_char: "atom_ok a c \<Longrightarrow> rmatch (One a # k) (c # cs) caps = rmatch k cs caps"
  by simp

lemma map_upt_1_7: "map f [Suc 0 ..< 7] = [f (Suc 0), f 2, f 3, f 4, f 5, f 6]"
  by (simp add: upt_rec eval_nat_numeral)

lemma re_match_line:
  assumes nk: "nk \<noteq> []" "CHR ''!'' \<notin> set nk"
    and uh: "uh \<noteq> []" "\<forall>c\<in>set uh. \<not> isspace c"
    and cmd: "cmd \<noteq> []" "\<forall>c\<in>set cmd. \<not> isspace c"
    and tgt: "tgt \<noteq> []" "\<forall>c\<in>set tgt. \<not> isspace c" "hd tgt \<noteq> CHR '':''"
  shows "re_match Bot_pat 6
           ('':'' @ nk @ ''!'' @ uh @ '' '' @ cmd @ '' '' @ tgt @ '' :'' @ rest) =
         Some [Some nk, Some uh, Some cmd, Some tgt, Some (message_of rest), None]"
proof -
  define k0 where "k0 = [OptNC [Plus (AnyOf '':+-''), Group 5 [Star Dot]],
                         OptNC [Plus (AnyOf '':+-''), Group 6 [Star Dot]]]"
  define s9 where "s9 = CHR '':'' # rest"
  define s7 where "s7 = tgt @ '' '' @ s9"
  define s4 where "s4 = cmd @ '' '' @ s7"
  define s2 where "s2 = uh @ '' '' @ s4"
  define s0 where "s0 = nk @ ''!'' @ s2"
  have sp: "isspace CHR '' ''" by (simp add: isspace_def)
  have nsp: "\<not> isspace CHR '':''" by (simp add: isspace_def)
  have hd_tgt: "\<not> isspace (hd tgt)" using tgt(1,2) by (cases tgt) auto
  have hd_cmd: "\<not> isspace (hd cmd)" using cmd by (cases cmd) auto
  have hd7: "hd s7 = hd tgt" using tgt(1) by (simp add: s7_def)
  have hd4: "hd s4 = hd cmd" using cmd(1) by (simp add: s4_def)
  have e9: "rmatch k0 s9 c = Some (c(5 \<mapsto> message_of rest))" for c
    unfolding k0_def s9_def by (rule tail_of_pattern)
  have e8: "rmatch (Star WSpace # k0) ('' '' @ s9) c = Some (c(5 \<mapsto> message_of rest))" for c
    by (rule star_token [OF _ _ e9]) (simp_all add: sp nsp s9_def)
  have e7: "rmatch (Group 4 [Plus NonWSpace] # Star WSpace # k0) (tgt @ '' '' @ s9) c =
            Some (c(4 \<mapsto> tgt, 5 \<mapsto> message_of rest))" for c
    by (rule group_plus_token [OF tgt(1) _ _ e8]) (use tgt(2) sp in simp_all)
  have e6: "rmatch (Opt (Chr CHR '':'') # Group 4 [Plus NonWSpace] # Star WSpace # k0) s7 c =
            Some (c(4 \<mapsto> tgt, 5 \<mapsto> message_of rest))" for c
    using tgt(3) by (simp only: opt_absent [of s7 "Chr CHR '':''"] hd7 atom_ok.simps e7 [folded s7_def] simp_thms)
  have e5: "rmatch (Plus WSpace # Opt (Chr CHR '':'') # Group 4 [Plus NonWSpace] # Star WSpace # k0)
              ('' '' @ s7) c = Some (c(4 \<mapsto> tgt, 5 \<mapsto> message_of rest))" for c
    by (rule plus_token [OF _ _ _ e6]) (simp_all add: sp hd7 hd_tgt)
  have e4: "rmatch (Group 3 [Plus NonWSpace] # Plus WSpace # Opt (Chr CHR '':'') #
                    Group 4 [Plus NonWSpace] # Star WSpace # k0) (cmd @ '' '' @ s7) c =
            Some (c(3 \<mapsto> cmd, 4 \<mapsto> tgt, 5 \<mapsto> message_of rest))" for c
    by (rule group_plus_token [OF cmd(1) _ _ e5]) (use cmd(2) sp in simp_all)
  have e3: "rmatch (Plus WSpace # Group 3 [Plus NonWSpace] # Plus WSpace # Opt (Chr CHR '':'') #
                    Group 4 [Plus NonWSpace] # Star WSpace # k0) ('' '' @ s4) c =
            Some (c(3 \<mapsto> cmd, 4 \<mapsto> tgt, 5 \<mapsto> message_of rest))" for c
    by (rule plus_token [OF _ _ _ e4 [folded s4_def]]) (simp_all add: sp hd4 hd_cmd)
  have e2: "rmatch (Group 2 [Plus NonWSpace] # Plus WSpace # Group 3 [Plus NonWSpace] #
                    Plus WSpace # Opt (Chr CHR '':'') # Group 4 [Plus NonWSpace] #
                    Star WSpace # k0) (uh @ '' '' @ s4) c =
            Some (c(2 \<mapsto> uh, 3 \<mapsto> cmd, 4 \<mapsto> tgt, 5 \<mapsto> message_of rest))" for c
    by (rule group_plus_token [OF uh(1) _ _ e3]) (use uh(2) sp in simp_all)
  have e1: "rmatch (One (Chr CHR ''!'') # Group 2 [Plus NonWSpace] # Plus WSpace #
                    Group 3 [Plus NonWSpace] # Plus WSpace # Opt (Chr CHR '':'') #
                    Group 4 [Plus NonWSpace] # Star WSpace # k0) (''!'' @ s2) c =
            Some (c(2 \<mapsto> uh, 3 \<mapsto> cmd, 4 \<mapsto> tgt, 5 \<mapsto> message_of rest))" for c
    using e2 [of c] by (simp add: s2_def one_char del: rmatch.simps)
  have e0: "rmatch (Group 1 [Plus (NotChr CHR ''!'')] # One (Chr CHR ''!'') #
                    Group 2 [Plus NonWSpace] # Plus WSpace # Group 3 [Plus NonWSpace] #
                    Plus WSpace # Opt (Chr CHR '':'') # Group 4 [Plus NonWSpace] #
                    Star WSpace # k0) (nk @ ''!'' @ s2) c =
            Some (c(1 \<mapsto> nk, 2 \<mapsto> uh, 3 \<mapsto> cmd, 4 \<mapsto> tgt, 5 \<mapsto> message_of rest))" for c
    by (rule group_plus_token [OF nk(1) _ _ e1]) (use nk(2) in auto)
  have "rmatch Bot_pat ('':'' @ s0) Map.empty =
        Some [1 \<mapsto> nk, 2 \<mapsto> uh, 3 \<mapsto> cmd, 4 \<mapsto> tgt, 5 \<mapsto> message_of rest]"
    using e0 [of Map.empty] by (simp add: Bot_pat_def k0_def s0_def one_char del: rmatch.simps)
  moreover have "'':'' @ nk @ ''!'' @ uh @ '' '' @ cmd @ '' '' @ tgt @ '' :'' @ rest = '':'' @ s0"
    by (simp add: s0_def s2_def s4_def s7_def s9_def)
  ultimately show ?thesis
    by (simp add: re_match_def map_upt_1_7)
qed


lemma rstrip_no_space: "s = [] \<or> \<not> isspace (last s) \<Longrightarrow> rstrip s = s"
proof (cases s rule: rev_cases)
  case Nil
  then show ?thesis by (simp add: rstrip_def)
next
  case (snoc ys y)
  assume "s = [] \<or> \<not> isspace (last s)"
  with snoc show ?thesis by (simp add: rstrip_def)
qed

lemma rstrip_token: "\<forall>c\<in>set s. \<not> isspace c \<Longrightarrow> rstrip s = s"
  by (rule rstrip_no_space) (cases s rule: rev_cases, auto)

lemma rstrip_append_space: "\<forall>c\<in>set ws. isspace c \<Longrightarrow> rstrip (s @ ws) = rstrip s"
proof -
  assume "\<forall>c\<in>set ws. isspace c"
  then have "dropWhile isspace (rev ws @ rev s) = dropWhile isspace (rev s)"
    by (intro dropWhile_append2) simp
  then show ?thesis by (simp add: rstrip_def)
qed

lemma parse_msg_line:
  assumes "nk \<noteq> []" "CHR ''!'' \<notin> set nk" "\<forall>c\<in>set nk. \<not> isspace c"
    and "uh \<noteq> []" "\<forall>c\<in>set uh. \<not> isspace c"
    and "cmd \<noteq> []" "\<forall>c\<in>set cmd. \<not> isspace c"
    and "tgt \<noteq> []" "\<forall>c\<in>set tgt. \<not> isspace c" "hd tgt \<noteq> CHR '':''"
  shows "parse_msg (line_of nk uh cmd tgt rest) =
         Some ((map_of [(''nick'', nk), (''user'', uh), (''action'', cmd), (''recipient'', tgt),
                        (''message'', rstrip (message_of rest))])
               (''orig'' \<mapsto> line_of nk uh cmd tgt rest))"
proof -
  have "re_match Bot_pat 6 (line_of nk uh cmd tgt rest) =
        Some [Some nk, Some uh, Some cmd, Some tgt, Some (message_of rest), None]"
    unfolding line_of_def
    by (rule re_match_line) (use assms in simp_all)
  then show ?thesis
    using assms(3,5,7,9) by (simp add: parse_msg_def rstrip_token)
qed

lemma message_of_trailing:
  assumes "trailing = [] \<or> \<not> marker (hd trailing)"
    and "CHR 0x0A \<notin> set trailing"
    and "trailing = [] \<or> \<not> isspace (last trailing)"
    and "eol = [] \<or> eol = CRLF"
  shows "rstrip (message_of (trailing @ eol)) = trailing"
proof -
  have m: "\<not> marker CHR 0x0D" by (simp add: marker_def)
  have d: "dropWhile marker (trailing @ eol) = trailing @ eol"
  proof (cases trailing)
    case Nil
    with assms(4) m show ?thesis by (auto simp: CRLF_def)
  next
    case (Cons c cs)
    with assms(1) show ?thesis by simp
  qed
  have t: "takeWhile (\<lambda>c. c \<noteq> CHR 0x0A) (trailing @ eol) =
           trailing @ takeWhile (\<lambda>c. c \<noteq> CHR 0x0A) eol"
    using assms(2) by (intro takeWhile_append2) auto
  have e: "takeWhile (\<lambda>c. c \<noteq> CHR 0x0A) eol = [] \<or> takeWhile (\<lambda>c. c \<noteq> CHR 0x0A) eol = [CHR 0x0D]"
    using assms(4) by (auto simp: CRLF_def)
  have "\<forall>c\<in>set (takeWhile (\<lambda>c. c \<noteq> CHR 0x0A) eol). isspace c"
    using e by (auto simp: isspace_def)
  then have "rstrip (trailing @ takeWhile (\<lambda>c. c \<noteq> CHR 0x0A) eol) = rstrip trailing"
    by (rule rstrip_append_space)
  with assms(3) show ?thesis
    by (simp add: message_of_def d t rstrip_no_space)
qed

text \<open>
  C3 (as amended). A line \<^verbatim>\<open>:nick!user@host COMMAND target :trailing\<close>, alone or
  followed by CRLF, with a nick that has no \<^verbatim>\<open>!\<close>, with nick, user@host, command and
  target not empty and free of whitespace, and a target that does not start with a
  colon, parses to a dictionary that holds the nick and user@host in the entries
  \<^verbatim>\<open>nick\<close> and \<^verbatim>\<open>user\<close>, the command in \<^verbatim>\<open>action\<close>, the target in \<^verbatim>\<open>recipient\<close> and the
  trailing text in \<^verbatim>\<open>message\<close>, provided the trailing text does not start with \<^verbatim>\<open>:\<close>,
  \<^verbatim>\<open>+\<close> or \<^verbatim>\<open>-\<close>, does not end with whitespace and holds no line feed.
\<close>

theorem C3_well_formed_line_parses:
  assumes "nk \<noteq> []" "CHR ''!'' \<notin> set nk" "\<forall>c\<in>set nk. \<not> isspace c"
    and "uh \<noteq> []" "\<forall>c\<in>set uh. \<not> isspace c"
    and "cmd \<noteq> []" "\<forall>c\<in>set cmd. \<not> isspace c"
    and "tgt \<noteq> []" "\<forall>c\<in>set tgt. \<not> isspace c" "hd tgt \<noteq> CHR '':''"
    and "trailing = [] \<or> \<not> marker (hd trailing)"
    and "CHR 0x0A \<notin> set trailing"
    and "trailing = [] \<or> \<not> isspace (last trailing)"
    and "eol = [] \<or> eol = CRLF"
  shows "parse_msg (line_of nk uh cmd tgt (trailing @ eol)) =
         Some ((map_of [(''nick'', nk), (''user'', uh), (''action'', cmd), (''recipient'', tgt),
                        (''message'', trailing)])
               (''orig'' \<mapsto> line_of nk uh cmd tgt (trailing @ eol)))"
  using parse_msg_line [OF assms(1-10), of "trailing @ eol"] message_of_trailing [OF assms(11-14)]
  by simp

theorem C3_well_formed_line_parses_witness:
  "parse_msg ('':nick!user@host PRIVMSG #chan :hello world'' @ CRLF) =
     Some ((map_of [(''nick'', ''nick''), (''user'', ''user@host''), (''action'', ''PRIVMSG''),
                    (''recipient'', ''#chan''), (''message'', ''hello world'')])
           (''orig'' \<mapsto> '':nick!user@host PRIVMSG #chan :hello world'' @ CRLF))"
  using C3_well_formed_line_parses [of "''nick''" "''user@host''" "''PRIVMSG''" "''#chan''"
      "''hello world''" CRLF]
  by (simp add: line_of_def isspace_def marker_def)

lemma re_match_smiley_line:
  "re_match Bot_pat 6 smiley_line =
     Some [Some ''nick'', Some ''user@host'', Some ''PRIVMSG'', Some ''#chan'', Some '')'', None]"
  by code_simp

text \<open>
  C3 as the claim states it fails: the trailing text of
  \<^verbatim>\<open>:nick!user@host PRIVMSG #chan :-)\<close> is \<^verbatim>\<open>-)\<close>, and the parser gives the message \<^verbatim>\<open>)\<close>.
\<close>

theorem C3_counterexample:
  "parse_msg smiley_line =
     Some ((map_of [(''nick'', ''nick''), (''user'', ''user@host''), (''action'', ''PRIVMSG''),
                    (''recipient'', ''#chan''), (''message'', '')'')])
           (''orig'' \<mapsto> smiley_line))"
proof -
  have "rstrip ''nick'' = ''nick''" "rstrip ''user@host'' = ''user@host''"
    "rstrip ''PRIVMSG'' = ''PRIVMSG''" "rstrip ''#chan'' = ''#chan''" "rstrip '')'' = '')''"
    by code_simp+
  then show ?thesis
    by (simp add: parse_msg_def re_match_smiley_line)
qed

end
